theory Spec2Isabelle
  imports Main "HOL-Library.Sublist"
begin

section \<open>Strings as the program uses them\<close>

text \<open>
  Program strings are modelled as lists of characters read as ASCII text: one
  \<^typ>\<open>char\<close> per code unit. \<open>toLowerCase\<close> folds the letters \<open>A\<close> to \<open>Z\<close> and
  leaves every other character alone; the white space class of the regular expression
  \<open>\s\<close> is tab, line feed, vertical tab, form feed, carriage return and space.
\<close>

definition lowerChar :: "char \<Rightarrow> char" where
  "lowerChar c =
     (let n = (of_char c :: nat) in if 65 \<le> n \<and> n \<le> 90 then char_of (n + 32) else c)"

definition upperChar :: "char \<Rightarrow> char" where
  "upperChar c =
     (let n = (of_char c :: nat) in if 97 \<le> n \<and> n \<le> 122 then char_of (n - 32) else c)"

definition toLowerCase :: "string \<Rightarrow> string" where
  "toLowerCase s = map lowerChar s"

definition isSpace :: "char \<Rightarrow> bool" where
  "isSpace c = (let n = (of_char c :: nat) in n = 32 \<or> (9 \<le> n \<and> n \<le> 13))"

text \<open>\<open>s.includes(t)\<close>: \<open>t\<close> is a contiguous part of \<open>s\<close>.\<close>

definition strIncludes :: "string \<Rightarrow> string \<Rightarrow> bool" where
  "strIncludes s t = sublist t s"

text \<open>\<open>s.indexOf(t)\<close>: the first offset at which \<open>t\<close> starts in \<open>s\<close>, or \<open>-1\<close>.\<close>

fun indexOfFrom :: "nat \<Rightarrow> string \<Rightarrow> string \<Rightarrow> int" where
  "indexOfFrom i [] t = (if t = [] then int i else -1)"
| "indexOfFrom i (c # cs) t =
     (if prefix t (c # cs) then int i else indexOfFrom (Suc i) cs t)"

definition indexOf :: "string \<Rightarrow> string \<Rightarrow> int" where
  "indexOf s t = indexOfFrom 0 s t"

text \<open>
  \<open>s.slice(a, b)\<close>: a negative bound counts from the end; both bounds are clamped to
  the string; an empty range gives the empty string.
\<close>

definition slice :: "'a list \<Rightarrow> int \<Rightarrow> int \<Rightarrow> 'a list" where
  "slice s a b =
     (let n = int (length s);
          from = (if a < 0 then max (n + a) 0 else min a n);
          to = (if b < 0 then max (n + b) 0 else min b n)
      in take (nat (to - from)) (drop (nat from) s))"

text \<open>
  \<open>s.split(/\s+/)\<close>: the fields between maximal runs of white space, the empty
  fields at both ends included. \<open>inSep\<close> says that the scan is inside a run.
\<close>

fun splitAux :: "bool \<Rightarrow> string \<Rightarrow> string \<Rightarrow> string list" where
  "splitAux inSep cur [] = [rev cur]"
| "splitAux inSep cur (c # cs) =
     (if isSpace c
      then (if inSep then splitAux True [] cs else rev cur # splitAux True [] cs)
      else splitAux False (c # cur) cs)"

definition splitWhitespace :: "string \<Rightarrow> string list" where
  "splitWhitespace s = splitAux False [] s"

section \<open>Search: terms, filter and score (search.ts)\<close>

text \<open>\<open>query.toLowerCase().split(/\s+/).filter(Boolean)\<close>\<close>

definition searchTerms :: "string \<Rightarrow> string list" where
  "searchTerms query = filter (\<lambda>t. t \<noteq> []) (splitWhitespace (toLowerCase query))"

text \<open>\<open>searchTerms.every((term) => contentLower.includes(term))\<close>\<close>

definition chunkMatches :: "string list \<Rightarrow> string \<Rightarrow> bool" where
  "chunkMatches terms content =
     (let contentLower = toLowerCase content
      in list_all (\<lambda>term. strIncludes contentLower term) terms)"

text \<open>
  The words of the specification: \<open>t\<close> occurs in \<open>C\<close> as a case-insensitive substring
  when some window of \<open>C\<close> of the length of \<open>t\<close> equals \<open>t\<close> up to the case of letters.
  \<open>ciOccurrencePositions\<close> lists the offsets of all such windows.
\<close>

definition ciOccurrencePositions :: "string \<Rightarrow> string \<Rightarrow> nat list" where
  "ciOccurrencePositions t C =
     filter (\<lambda>i. toLowerCase (take (length t) (drop i C)) = toLowerCase t)
       [0 ..< Suc (length C)]"

definition ciOccurs :: "string \<Rightarrow> string \<Rightarrow> bool" where
  "ciOccurs t C = (ciOccurrencePositions t C \<noteq> [])"

subsection \<open>The regular expression of the score\<close>

text \<open>
  The score builds \<open>new RegExp(term, "gi")\<close> from the raw term. The model covers the
  patterns made of ordinary characters and the wild card \<open>.\<close>, and the patterns that
  start with a quantifier, which the constructor rejects with a SyntaxError. Every
  other pattern with a metacharacter is answered \<open>RegExpUnmodelled\<close>: nothing is
  proved about those.
\<close>

datatype error = ENOENT | JSONParseError | RegExpSyntaxError | RegExpUnmodelled

datatype atom = Lit char | AnyChar

definition isRegexMeta :: "char \<Rightarrow> bool" where
  "isRegexMeta c = (c \<in> set ''^$.*+?()[]{}|'' \<or> c = CHR 0x5C)"

definition isQuantifier :: "char \<Rightarrow> bool" where
  "isQuantifier c = (c \<in> set ''*+?'')"

definition compilePattern :: "string \<Rightarrow> error + atom list" where
  "compilePattern p =
     (case p of
        [] \<Rightarrow> Inr []
      | c # cs \<Rightarrow>
          if isQuantifier c then Inl RegExpSyntaxError
          else if list_all (\<lambda>c. c = CHR ''.'' \<or> \<not> isRegexMeta c) p
          then Inr (map (\<lambda>c. if c = CHR ''.'' then AnyChar else Lit c) p)
          else Inl RegExpUnmodelled)"

text \<open>
  With the flag \<open>i\<close> two characters are equal when their upper-case forms are; \<open>.\<close>
  takes every character but a line terminator.
\<close>

fun atomMatches :: "atom \<Rightarrow> char \<Rightarrow> bool" where
  "atomMatches (Lit a) c = (upperChar a = upperChar c)"
| "atomMatches AnyChar c = (c \<noteq> CHR 0x0A \<and> c \<noteq> CHR 0x0D)"

fun matchHere :: "atom list \<Rightarrow> string \<Rightarrow> bool" where
  "matchHere [] s = True"
| "matchHere (a # as) [] = False"
| "matchHere (a # as) (c # cs) = (atomMatches a c \<and> matchHere as cs)"

text \<open>
  \<open>content.match(regex)\<close> with the flag \<open>g\<close>: scan from the left, and carry on behind
  each match. The empty pattern matches once at every offset.
\<close>

fun countMatches :: "atom list \<Rightarrow> string \<Rightarrow> nat" where
  "countMatches as [] = (if as = [] then 1 else 0)"
| "countMatches as (c # cs) =
     (if as = [] then Suc (countMatches as cs)
      else if matchHere as (c # cs)
      then Suc (countMatches as (drop (length as - 1) cs))
      else countMatches as cs)"

definition matchCount :: "string \<Rightarrow> string \<Rightarrow> error + nat" where
  "matchCount content term =
     (case compilePattern term of
        Inl e \<Rightarrow> Inl e
      | Inr as \<Rightarrow> Inr (countMatches as content))"

text \<open>The loop \<open>for (const term of searchTerms) { ... score += matchCount }\<close>.\<close>

fun scoreLoop :: "string \<Rightarrow> string list \<Rightarrow> nat \<Rightarrow> error + nat" where
  "scoreLoop content [] score = Inr score"
| "scoreLoop content (term # terms) score =
     (case matchCount content term of
        Inl e \<Rightarrow> Inl e
      | Inr n \<Rightarrow> scoreLoop content terms (score + n))"

definition relevanceScore :: "string \<Rightarrow> string list \<Rightarrow> error + nat" where
  "relevanceScore content terms = scoreLoop content terms 0"

subsection \<open>Excerpts\<close>

definition truncateText :: "string \<Rightarrow> int \<Rightarrow> string" where
  "truncateText text maxLength =
     (if int (length text) \<le> maxLength then text
      else slice text 0 (maxLength - 3) @ ''...'')"

text \<open>The loop that finds the first occurrence of any term.\<close>

fun bestIndexLoop :: "string \<Rightarrow> string list \<Rightarrow> int \<Rightarrow> int" where
  "bestIndexLoop contentLower [] bestIndex = bestIndex"
| "bestIndexLoop contentLower (term # terms) bestIndex =
     (let index = indexOf contentLower term
      in bestIndexLoop contentLower terms
           (if index \<noteq> -1 \<and> index < bestIndex then index else bestIndex))"

definition findBestIndex :: "string \<Rightarrow> string list \<Rightarrow> int" where
  "findBestIndex content terms =
     bestIndexLoop (toLowerCase content) terms (int (length content))"

text \<open>
  The window \<open>(start, end)\<close> that \<open>createExcerpt\<close> cuts out once a term was found.
\<close>

definition excerptWindow :: "string \<Rightarrow> int \<Rightarrow> int \<Rightarrow> int \<times> int" where
  "excerptWindow content bestIndex maxLength =
     (let len = int (length content);
          halfLength = maxLength div 2;
          start = max 0 (bestIndex - halfLength);
          end = min len (start + maxLength);
          start = (if end = len \<and> end - start < maxLength
                   then max 0 (end - maxLength) else start)
      in (start, end))"

definition createExcerpt :: "string \<Rightarrow> string list \<Rightarrow> int \<Rightarrow> string" where
  "createExcerpt content terms maxLength =
     (let bestIndex = findBestIndex content terms
      in if bestIndex = int (length content) then truncateText content maxLength
         else
           (let (start, end) = excerptWindow content bestIndex maxLength;
                excerpt = slice content start end;
                excerpt = (if start > 0 then ''...'' @ excerpt else excerpt);
                excerpt = (if end < int (length content) then excerpt @ ''...'' else excerpt)
            in excerpt))"

text \<open>
  The offset at which the window of the excerpt starts: 0 on the fall-back path,
  which returns the beginning of the content.
\<close>

definition excerptStart :: "string \<Rightarrow> string list \<Rightarrow> int \<Rightarrow> int" where
  "excerptStart content terms maxLength =
     (let bestIndex = findBestIndex content terms
      in if bestIndex = int (length content) then 0
         else fst (excerptWindow content bestIndex maxLength))"

section \<open>The data model (types.ts)\<close>

text \<open>
  Field names are those of the source; where two interfaces share a field name the
  later record gets a prefix (\<open>chunk\<close>, \<open>result\<close>), and \<open>text\<close> is \<open>plainText\<close>.
  Time stamps are integers (milliseconds).
\<close>

record metadata =
  sessionID :: string
  projectID :: string
  title :: string
  directory :: string
  worktree :: string
  createdAt :: int
  updatedAt :: int
  messageCount :: nat
  compacted :: bool
  compactedAt :: "int option"
  expiresAt :: int

record index =
  version :: nat
  transcripts :: "(string \<times> metadata) list"

datatype role = User | Assistant

record chunk =
  chunkID :: string
  chunkSessionID :: string
  messageID :: string
  role :: role
  content :: string
  timestamp :: int
  partTypes :: "string list"

record transcript =
  metadata :: metadata
  markdown :: string
  plainText :: string
  chunks :: "chunk list"

record searchResult =
  resultSessionID :: string
  sessionTitle :: string
  resultMessageID :: string
  resultRole :: role
  excerpt :: string
  resultTimestamp :: int
  score :: nat
  contextBefore :: "string option"
  contextAfter :: "string option"

section \<open>The transcript tree on disk\<close>

text \<open>
  A file read with \<open>.json()\<close> either holds a value of the shape the program wrote or
  does not parse; \<open>None\<close> is a missing file or directory. A directory listing is a
  list of entries in the order \<open>readdir\<close> returns them: writing an existing name
  keeps its place, a new name goes to the end. The same holds for the keys of the index
  object (session identifiers are not integer-like keys). Session identifiers and chunk
  identifiers are single path segments. Writes succeed.
\<close>

datatype 'a jsonFile = Json 'a | Corrupt

record sessionDir =
  metadataJson :: "metadata jsonFile option"
  transcriptMd :: "string option"
  transcriptTxt :: "string option"
  chunksDir :: "(string \<times> chunk jsonFile) list option"

record store =
  homedir :: string
  indexJson :: "index jsonFile option"
  sessionDirs :: "string \<Rightarrow> sessionDir option"

definition emptyDir :: sessionDir where
  "emptyDir = \<lparr>metadataJson = None, transcriptMd = None, transcriptTxt = None,
               chunksDir = None\<rparr>"

fun objSet :: "string \<Rightarrow> 'a \<Rightarrow> (string \<times> 'a) list \<Rightarrow> (string \<times> 'a) list" where
  "objSet k v [] = [(k, v)]"
| "objSet k v ((k', v') # kvs) =
     (if k' = k then (k, v) # kvs else (k', v') # objSet k v kvs)"

fun objDelete :: "string \<Rightarrow> (string \<times> 'a) list \<Rightarrow> (string \<times> 'a) list" where
  "objDelete k [] = []"
| "objDelete k ((k', v') # kvs) =
     (if k' = k then kvs else (k', v') # objDelete k kvs)"

definition readJson :: "'a jsonFile option \<Rightarrow> error + 'a" where
  "readJson f =
     (case f of None \<Rightarrow> Inl ENOENT | Some Corrupt \<Rightarrow> Inl JSONParseError | Some (Json v) \<Rightarrow> Inr v)"

definition readText :: "string option \<Rightarrow> error + string" where
  "readText f = (case f of None \<Rightarrow> Inl ENOENT | Some s \<Rightarrow> Inr s)"

section \<open>The store (storage.ts)\<close>

definition TRANSCRIPT_DIR :: "store \<Rightarrow> string" where
  "TRANSCRIPT_DIR st = homedir st @ ''/.local/share/opencode/transcripts''"

definition RETENTION_DAYS :: int where
  "RETENTION_DAYS = 7"

definition INDEX_VERSION :: nat where
  "INDEX_VERSION = 1"

definition readIndex :: "store \<Rightarrow> index" where
  "readIndex st =
     (case readJson (indexJson st) of
        Inr parsed \<Rightarrow> parsed
      | Inl e \<Rightarrow> \<lparr>version = INDEX_VERSION, transcripts = []\<rparr>)"

definition writeIndex :: "index \<Rightarrow> store \<Rightarrow> store" where
  "writeIndex idx st = st\<lparr>indexJson := Some (Json idx)\<rparr>"

definition updateIndexEntry :: "metadata \<Rightarrow> store \<Rightarrow> store" where
  "updateIndexEntry m st =
     (let idx = readIndex st;
          idx = idx\<lparr>transcripts := objSet (sessionID m) m (transcripts idx)\<rparr>
      in writeIndex idx st)"

definition removeIndexEntry :: "string \<Rightarrow> store \<Rightarrow> store" where
  "removeIndexEntry sid st =
     (let idx = readIndex st;
          idx = idx\<lparr>transcripts := objDelete sid (transcripts idx)\<rparr>
      in writeIndex idx st)"

definition getTranscriptPath :: "store \<Rightarrow> string \<Rightarrow> string" where
  "getTranscriptPath st sid = TRANSCRIPT_DIR st @ ''/'' @ sid @ ''/transcript.md''"

text \<open>The loop that writes one file per chunk into the chunks directory.\<close>

fun writeChunks :: "chunk list \<Rightarrow> (string \<times> chunk jsonFile) list \<Rightarrow> (string \<times> chunk jsonFile) list" where
  "writeChunks [] files = files"
| "writeChunks (c # cs) files = writeChunks cs (objSet (chunkID c @ ''.json'') (Json c) files)"

definition saveTranscript :: "transcript \<Rightarrow> store \<Rightarrow> string \<times> store" where
  "saveTranscript t st =
     (let sid = sessionID (metadata t);
          d = (case sessionDirs st sid of None \<Rightarrow> emptyDir | Some d \<Rightarrow> d);
          d = d\<lparr>metadataJson := Some (Json (metadata t))\<rparr>;
          d = d\<lparr>transcriptMd := Some (markdown t)\<rparr>;
          d = d\<lparr>transcriptTxt := Some (plainText t)\<rparr>;
          files = (case chunksDir d of None \<Rightarrow> [] | Some files \<Rightarrow> files);
          d = d\<lparr>chunksDir := Some (writeChunks (chunks t) files)\<rparr>;
          st = st\<lparr>sessionDirs := (sessionDirs st)(sid \<mapsto> d)\<rparr>;
          st = updateIndexEntry (metadata t) st
      in (getTranscriptPath st sid, st))"

text \<open>
  The inner \<open>try\<close> of \<open>loadTranscript\<close>. The array \<open>chunks\<close> (here \<open>acc\<close>) outlives an
  exception: the loop returns how it ended together with the chunks pushed so far.
\<close>

fun readChunkLoop :: "(string \<times> chunk jsonFile) list \<Rightarrow> chunk list \<Rightarrow> (error + unit) \<times> chunk list" where
  "readChunkLoop [] acc = (Inr (), acc)"
| "readChunkLoop ((file, f) # files) acc =
     (if suffix ''.json'' file
      then (case readJson (Some f) of
              Inl e \<Rightarrow> (Inl e, acc)
            | Inr c \<Rightarrow> readChunkLoop files (acc @ [c]))
      else readChunkLoop files acc)"

definition tryLoadChunks :: "sessionDir \<Rightarrow> (error + unit) \<times> chunk list" where
  "tryLoadChunks d =
     (case chunksDir d of
        None \<Rightarrow> (Inl ENOENT, [])
      | Some chunkFiles \<Rightarrow>
          (case readChunkLoop chunkFiles [] of
             (Inl e, acc) \<Rightarrow> (Inl e, acc)
           | (Inr u, acc) \<Rightarrow> (Inr (), sort_key timestamp acc)))"

text \<open>The body of the outer \<open>try\<close>: what it returns or throws.\<close>

definition loadTranscriptBody :: "string \<Rightarrow> store \<Rightarrow> error + transcript" where
  "loadTranscriptBody sid st =
     (case sessionDirs st sid of
        None \<Rightarrow> Inl ENOENT
      | Some d \<Rightarrow>
          (case readJson (metadataJson d) of
             Inl e \<Rightarrow> Inl e
           | Inr m \<Rightarrow>
               (case readText (transcriptMd d) of
                  Inl e \<Rightarrow> Inl e
                | Inr md \<Rightarrow>
                    (case readText (transcriptTxt d) of
                       Inl e \<Rightarrow> Inl e
                     | Inr txt \<Rightarrow>
                         Inr \<lparr>metadata = m, markdown = md, plainText = txt,
                              chunks = snd (tryLoadChunks d)\<rparr>))))"

text \<open>
  The three read paths. The result is \<open>Inl e\<close> when the call throws \<open>e\<close> to its
  caller and \<open>Inr r\<close> when it returns \<open>r\<close>; \<open>None\<close> is \<open>null\<close>.
\<close>

definition loadTranscript :: "string \<Rightarrow> store \<Rightarrow> error + transcript option" where
  "loadTranscript sid st =
     (case loadTranscriptBody sid st of
        Inr t \<Rightarrow> Inr (Some t)
      | Inl e \<Rightarrow> Inr None)"

definition loadTranscriptMarkdown :: "string \<Rightarrow> store \<Rightarrow> error + string option" where
  "loadTranscriptMarkdown sid st =
     (case (case sessionDirs st sid of None \<Rightarrow> Inl ENOENT | Some d \<Rightarrow> readText (transcriptMd d)) of
        Inr s \<Rightarrow> Inr (Some s)
      | Inl e \<Rightarrow> Inr None)"

definition loadTranscriptText :: "string \<Rightarrow> store \<Rightarrow> error + string option" where
  "loadTranscriptText sid st =
     (case (case sessionDirs st sid of None \<Rightarrow> Inl ENOENT | Some d \<Rightarrow> readText (transcriptTxt d)) of
        Inr s \<Rightarrow> Inr (Some s)
      | Inl e \<Rightarrow> Inr None)"

text \<open>
  The options of \<open>listTranscripts\<close>. An option is applied when it is truthy: a string
  that is present and not empty, a number that is present and not 0.
\<close>

record listOptions =
  optProjectID :: "string option"
  optSessionID :: "string option"
  optLimit :: "int option"

definition truthyString :: "string option \<Rightarrow> bool" where
  "truthyString v = (case v of None \<Rightarrow> False | Some s \<Rightarrow> s \<noteq> [])"

definition truthyNumber :: "int option \<Rightarrow> bool" where
  "truthyNumber v = (case v of None \<Rightarrow> False | Some n \<Rightarrow> n \<noteq> 0)"

definition listTranscripts :: "listOptions \<Rightarrow> store \<Rightarrow> metadata list" where
  "listTranscripts options st =
     (let idx = readIndex st;
          ts = map snd (transcripts idx);
          ts = (if truthyString (optProjectID options)
                then filter (\<lambda>t. Some (projectID t) = optProjectID options) ts else ts);
          ts = (if truthyString (optSessionID options)
                then filter (\<lambda>t. Some (sessionID t) = optSessionID options) ts else ts);
          ts = sort_key (\<lambda>t. - updatedAt t) ts;
          ts = (if truthyNumber (optLimit options)
                then slice ts 0 (the (optLimit options)) else ts)
      in ts)"

text \<open>
  \<open>deleteTranscript\<close>: the recursive listing throws when the session directory is
  missing, and the handler only logs; otherwise every file is unlinked, the chunks
  directory and the session directory are removed, and the index entry goes last.
\<close>

definition deleteTranscript :: "string \<Rightarrow> store \<Rightarrow> store" where
  "deleteTranscript sid st =
     (case sessionDirs st sid of
        None \<Rightarrow> st
      | Some d \<Rightarrow>
          (let d = \<lparr>metadataJson = None, transcriptMd = None, transcriptTxt = None,
                    chunksDir = map_option (\<lambda>files. []) (chunksDir d)\<rparr>;
               d = (case chunksDir d of None \<Rightarrow> d | Some chunkFiles \<Rightarrow> d\<lparr>chunksDir := None\<rparr>);
               st = (if d = emptyDir then st\<lparr>sessionDirs := (sessionDirs st)(sid := None)\<rparr>
                     else st\<lparr>sessionDirs := (sessionDirs st)(sid \<mapsto> d)\<rparr>)
           in removeIndexEntry sid st))"

text \<open>
  The loop of \<open>cleanupExpiredTranscripts\<close> runs over the entries of the index as read
  at the start; \<open>now\<close> is the value of \<open>Date.now()\<close>.
\<close>

fun sweepLoop :: "int \<Rightarrow> (string \<times> metadata) list \<Rightarrow> nat \<Rightarrow> store \<Rightarrow> nat \<times> store" where
  "sweepLoop now [] deletedCount st = (deletedCount, st)"
| "sweepLoop now ((sid, m) # entries) deletedCount st =
     (if expiresAt m \<noteq> 0 \<and> expiresAt m < now
      then sweepLoop now entries (Suc deletedCount) (deleteTranscript sid st)
      else sweepLoop now entries deletedCount st)"

definition cleanupExpiredTranscripts :: "int \<Rightarrow> store \<Rightarrow> nat \<times> store" where
  "cleanupExpiredTranscripts now st =
     (let idx = readIndex st in sweepLoop now (transcripts idx) 0 st)"

definition calculateExpiresAt :: "int \<Rightarrow> int \<Rightarrow> int" where
  "calculateExpiresAt now retentionDays = now + retentionDays * 24 * 60 * 60 * 1000"

section \<open>Building chunks (formatter.ts)\<close>

text \<open>
  A message is \<open>info.id\<close>, \<open>info.role\<close>, \<open>info.time.created\<close> and the parts. The input
  of a tool call is a JSON value of type \<open>'j\<close>; \<open>JSON.stringify\<close> is the parameter
  \<open>stringify\<close>. Parts that are neither text, reasoning nor tool calls only have a type
  tag. The message list is a list by its type, so the test \<open>Array.isArray(messages)\<close>
  always succeeds.
\<close>

datatype 'j toolState =
    ToolPending 'j
  | ToolRunning 'j
  | ToolCompleted 'j string string
  | ToolError 'j string

fun stateInput :: "'j toolState \<Rightarrow> 'j" where
  "stateInput (ToolPending i) = i"
| "stateInput (ToolRunning i) = i"
| "stateInput (ToolCompleted i out ttl) = i"
| "stateInput (ToolError i err) = i"

datatype otherKind = File | StepStart | StepFinish | Snapshot | Patch | Compaction

datatype 'j part =
    TextPart string
  | ReasoningPart string
  | ToolPart string "'j toolState"
  | OtherPart otherKind

fun otherType :: "otherKind \<Rightarrow> string" where
  "otherType File = ''file''"
| "otherType StepStart = ''step-start''"
| "otherType StepFinish = ''step-finish''"
| "otherType Snapshot = ''snapshot''"
| "otherType Patch = ''patch''"
| "otherType Compaction = ''compaction''"

fun partType :: "'j part \<Rightarrow> string" where
  "partType (TextPart t) = ''text''"
| "partType (ReasoningPart t) = ''reasoning''"
| "partType (ToolPart tool state) = ''tool''"
| "partType (OtherPart k) = otherType k"

record 'j message =
  msgID :: string
  msgRole :: role
  created :: int
  parts :: "'j part list"

definition newline :: string where
  "newline = [CHR 0x0A]"

text \<open>\<open>lines.join(sep)\<close>\<close>

fun joinWith :: "string \<Rightarrow> string list \<Rightarrow> string" where
  "joinWith sep [] = []"
| "joinWith sep [x] = x"
| "joinWith sep (x # y # ys) = x @ sep @ joinWith sep (y # ys)"

text \<open>\<open>[...new Set(xs)]\<close>: the distinct elements in the order of their first occurrence.\<close>

definition uniqueInOrder :: "'a list \<Rightarrow> 'a list" where
  "uniqueInOrder xs = fold (\<lambda>x acc. if x \<in> set acc then acc else acc @ [x]) xs []"

text \<open>A number inside a template string: its decimal digits.\<close>

definition digitChar :: "nat \<Rightarrow> char" where
  "digitChar d = char_of (48 + d)"

function showNat :: "nat \<Rightarrow> string" where
  "showNat n = (if n < 10 then [digitChar n] else showNat (n div 10) @ [digitChar (n mod 10)])"
  by pat_completeness auto
termination
  by (relation "measure (\<lambda>n. n)") auto

text \<open>
  The body of the loop over the parts of one message: \<open>pts\<close> is the array
  \<open>partTypes\<close>, \<open>cps\<close> the array \<open>contentParts\<close>.
\<close>

fun partStep :: "('j \<Rightarrow> string) \<Rightarrow> 'j part \<Rightarrow> string list \<times> string list \<Rightarrow> string list \<times> string list" where
  "partStep stringify p (pts, cps) =
     (let pts = pts @ [partType p]
      in case p of
           TextPart t \<Rightarrow> (pts, cps @ [t])
         | ToolPart tool state \<Rightarrow>
             (let cps = cps @ [''Tool: '' @ tool];
                  cps = cps @ [''Input: '' @ stringify (stateInput state)];
                  cps = (case state of
                           ToolCompleted i out ttl \<Rightarrow> cps @ [''Output: '' @ slice out 0 1000]
                         | _ \<Rightarrow> cps)
              in (pts, cps))
         | ReasoningPart t \<Rightarrow> (pts, cps @ [t])
         | OtherPart k \<Rightarrow> (pts, cps))"

definition partsLoop :: "('j \<Rightarrow> string) \<Rightarrow> 'j part list \<Rightarrow> string list \<times> string list" where
  "partsLoop stringify ps = fold (partStep stringify) ps ([], [])"

fun chunkLoop :: "('j \<Rightarrow> string) \<Rightarrow> string \<Rightarrow> 'j message list \<Rightarrow> nat \<Rightarrow> chunk list \<Rightarrow> chunk list" where
  "chunkLoop stringify sid [] chunkIndex acc = acc"
| "chunkLoop stringify sid (msg # msgs) chunkIndex acc =
     (let (pts, cps) = partsLoop stringify (parts msg)
      in if length cps > 0
         then chunkLoop stringify sid msgs (Suc chunkIndex)
                (acc @ [\<lparr>chunkID = ''chunk_'' @ showNat chunkIndex,
                          chunkSessionID = sid,
                          messageID = msgID msg,
                          role = msgRole msg,
                          content = joinWith newline cps,
                          timestamp = created msg,
                          partTypes = uniqueInOrder pts\<rparr>])
         else chunkLoop stringify sid msgs chunkIndex acc)"

definition createChunks :: "('j \<Rightarrow> string) \<Rightarrow> 'j message list \<Rightarrow> string \<Rightarrow> chunk list" where
  "createChunks stringify messages sid = chunkLoop stringify sid messages 0 []"

section \<open>The plugin: building and saving on session events\<close>

text \<open>
  What the plugin gets from its host: the two renderers of formatter.ts (they format
  dates in the local time zone and are taken as parameters here), \<open>JSON.stringify\<close>,
  the client calls \<open>session.get\<close> (the title of the session, \<open>None\<close> for no data) and
  \<open>session.messages\<close> (\<open>None\<close> when the data is not an array), and the project.
\<close>

record 'j plugin =
  renderMarkdown :: "'j message list \<Rightarrow> string \<Rightarrow> string"
  renderText :: "'j message list \<Rightarrow> string \<Rightarrow> string"
  stringifyInput :: "'j \<Rightarrow> string"
  sessionGet :: "string \<Rightarrow> error + string option"
  sessionMessages :: "string \<Rightarrow> error + 'j message list option"
  pluginProjectID :: string
  pluginDirectory :: string
  pluginWorktree :: string

definition buildTranscript ::
  "'j plugin \<Rightarrow> int \<Rightarrow> 'j message list \<Rightarrow> string \<Rightarrow> string \<Rightarrow> string \<Rightarrow> string \<Rightarrow> string \<Rightarrow> bool \<Rightarrow> transcript" where
  "buildTranscript P now messages sid pid ttl dir wt cmp =
     \<lparr>metadata =
        \<lparr>sessionID = sid, projectID = pid, title = ttl, directory = dir, worktree = wt,
         createdAt = now, updatedAt = now, messageCount = length messages,
         compacted = cmp, compactedAt = (if cmp then Some now else None),
         expiresAt = calculateExpiresAt now RETENTION_DAYS\<rparr>,
      markdown = renderMarkdown P messages ttl,
      plainText = renderText P messages ttl,
      chunks = createChunks (stringifyInput P) messages sid\<rparr>"

definition fetchSessionMessages :: "'j plugin \<Rightarrow> string \<Rightarrow> 'j message list" where
  "fetchSessionMessages P sid =
     (case sessionMessages P sid of
        Inl e \<Rightarrow> []
      | Inr None \<Rightarrow> []
      | Inr (Some ms) \<Rightarrow> ms)"

definition fetchSession :: "'j plugin \<Rightarrow> string \<Rightarrow> string option" where
  "fetchSession P sid = (case sessionGet P sid of Inl e \<Rightarrow> None | Inr s \<Rightarrow> s)"

definition saveSessionTranscript :: "'j plugin \<Rightarrow> int \<Rightarrow> string \<Rightarrow> bool \<Rightarrow> store \<Rightarrow> string option \<times> store" where
  "saveSessionTranscript P now sid cmp st =
     (case fetchSession P sid of
        None \<Rightarrow> (None, st)
      | Some ttl \<Rightarrow>
          (let messages = fetchSessionMessages P sid
           in if length messages = 0 then (None, st)
              else (let t = buildTranscript P now messages sid (pluginProjectID P) ttl
                              (pluginDirectory P) (pluginWorktree P) cmp;
                        (path, st) = saveTranscript t st
                    in (Some path, st))))"

datatype event = SessionIdle string | SessionCompacted string | OtherEvent

text \<open>
  The event hook, run when the clock shows \<open>now\<close>. The timer that schedules the sweep
  and the calls of the logger are left out.
\<close>

fun handleEvent :: "'j plugin \<Rightarrow> int \<Rightarrow> event \<Rightarrow> store \<Rightarrow> store" where
  "handleEvent P now (SessionIdle sid) st = snd (saveSessionTranscript P now sid False st)"
| "handleEvent P now (SessionCompacted sid) st = snd (saveSessionTranscript P now sid True st)"
| "handleEvent P now OtherEvent st = st"

fun handleEvents :: "'j plugin \<Rightarrow> (int \<times> event) list \<Rightarrow> store \<Rightarrow> store" where
  "handleEvents P [] st = st"
| "handleEvents P ((now, ev) # evs) st = handleEvents P evs (handleEvent P now ev st)"

section \<open>Searching the transcripts (search.ts)\<close>

record searchOptions =
  query :: string
  searchSessionID :: "string option"
  searchProjectID :: "string option"
  limit :: "int option"
  includeContext :: "bool option"

text \<open>\<open>chunks[i]\<close> for any integer \<open>i\<close>: \<open>undefined\<close> outside the array.\<close>

definition chunkAt :: "chunk list \<Rightarrow> int \<Rightarrow> chunk option" where
  "chunkAt chs i = (if 0 \<le> i \<and> i < int (length chs) then Some (chs ! nat i) else None)"

text \<open>
  The body of the loop over the chunks of one transcript: \<open>Inr None\<close> is \<open>continue\<close>,
  \<open>Inl e\<close> an exception of the regular expression.
\<close>

definition chunkResult :: "string list \<Rightarrow> bool \<Rightarrow> metadata \<Rightarrow> chunk list \<Rightarrow> nat \<Rightarrow> error + searchResult option" where
  "chunkResult terms incl m chs i =
     (case chunkAt chs (int i) of
        None \<Rightarrow> Inr None
      | Some c \<Rightarrow>
          if \<not> chunkMatches terms (content c) then Inr None
          else (case relevanceScore (content c) terms of
                  Inl e \<Rightarrow> Inl e
                | Inr sc \<Rightarrow>
                    Inr (Some
                      \<lparr>resultSessionID = sessionID m,
                       sessionTitle = title m,
                       resultMessageID = messageID c,
                       resultRole = role c,
                       excerpt = createExcerpt (content c) terms 500,
                       resultTimestamp = timestamp c,
                       score = sc,
                       contextBefore =
                         (if incl then map_option (\<lambda>p. truncateText (content p) 200)
                                         (chunkAt chs (int i - 1))
                          else None),
                       contextAfter =
                         (if incl then map_option (\<lambda>n. truncateText (content n) 200)
                                         (chunkAt chs (int i + 1))
                          else None)\<rparr>)))"

fun chunksLoop :: "string list \<Rightarrow> bool \<Rightarrow> metadata \<Rightarrow> chunk list \<Rightarrow> nat list \<Rightarrow> searchResult list \<Rightarrow> error + searchResult list" where
  "chunksLoop terms incl m chs [] results = Inr results"
| "chunksLoop terms incl m chs (i # is) results =
     (case chunkResult terms incl m chs i of
        Inl e \<Rightarrow> Inl e
      | Inr None \<Rightarrow> chunksLoop terms incl m chs is results
      | Inr (Some r) \<Rightarrow> chunksLoop terms incl m chs is (results @ [r]))"

fun transcriptsLoop :: "string list \<Rightarrow> bool \<Rightarrow> store \<Rightarrow> metadata list \<Rightarrow> searchResult list \<Rightarrow> error + searchResult list" where
  "transcriptsLoop terms incl st [] results = Inr results"
| "transcriptsLoop terms incl st (m # ms) results =
     (case loadTranscript (sessionID m) st of
        Inl e \<Rightarrow> Inl e
      | Inr None \<Rightarrow> transcriptsLoop terms incl st ms results
      | Inr (Some t) \<Rightarrow>
          (case chunksLoop terms incl m (chunks t) [0 ..< length (chunks t)] results of
             Inl e \<Rightarrow> Inl e
           | Inr results \<Rightarrow> transcriptsLoop terms incl st ms results))"

definition searchTranscripts :: "searchOptions \<Rightarrow> store \<Rightarrow> error + searchResult list" where
  "searchTranscripts options st =
     (let lim = (case limit options of None \<Rightarrow> 10 | Some l \<Rightarrow> l);
          incl = (case includeContext options of None \<Rightarrow> True | Some b \<Rightarrow> b);
          ts = listTranscripts \<lparr>optProjectID = searchProjectID options,
                                optSessionID = searchSessionID options,
                                optLimit = None\<rparr> st;
          terms = searchTerms (query options)
      in case transcriptsLoop terms incl st ts [] of
           Inl e \<Rightarrow> Inl e
         | Inr results \<Rightarrow> Inr (slice (sort_key (\<lambda>r. - int (score r)) results) 0 lim))"

section \<open>Notions of the specification\<close>

text \<open>
  An index entry is due when the guard of the sweep holds for it: its \<open>expiresAt\<close> is
  truthy (not 0) and strictly before \<open>now\<close>.
\<close>

definition expired :: "int \<Rightarrow> metadata \<Rightarrow> bool" where
  "expired now m = (expiresAt m \<noteq> 0 \<and> expiresAt m < now)"

text \<open>
  The three files that \<open>loadTranscript\<close> reads before the chunks can all be read;
  \<open>fileOf\<close> looks a file of a session up, \<open>None\<close> when the file or the directory is
  missing.
\<close>

definition coreReadable :: "string \<Rightarrow> store \<Rightarrow> bool" where
  "coreReadable sid st =
     (case sessionDirs st sid of
        None \<Rightarrow> False
      | Some d \<Rightarrow>
          (case metadataJson d of Some (Json m) \<Rightarrow> True | _ \<Rightarrow> False) \<and>
          transcriptMd d \<noteq> None \<and> transcriptTxt d \<noteq> None)"

definition fileOf :: "(sessionDir \<Rightarrow> 'a option) \<Rightarrow> string \<Rightarrow> store \<Rightarrow> 'a option" where
  "fileOf f sid st = (case sessionDirs st sid of None \<Rightarrow> None | Some d \<Rightarrow> f d)"

text \<open>
  What a search returns for a chunk when there are no terms: the score is 0 and the
  excerpt is the beginning of the content. \<open>everyChunk\<close> lists these results for every
  chunk of every transcript of \<open>ms\<close> that loads, in the order of the iteration.
\<close>

definition vacuousResult :: "bool \<Rightarrow> metadata \<Rightarrow> chunk list \<Rightarrow> nat \<Rightarrow> searchResult" where
  "vacuousResult incl m chs i =
     \<lparr>resultSessionID = sessionID m,
      sessionTitle = title m,
      resultMessageID = messageID (chs ! i),
      resultRole = role (chs ! i),
      excerpt = truncateText (content (chs ! i)) 500,
      resultTimestamp = timestamp (chs ! i),
      score = 0,
      contextBefore =
        (if incl then map_option (\<lambda>p. truncateText (content p) 200) (chunkAt chs (int i - 1))
         else None),
      contextAfter =
        (if incl then map_option (\<lambda>n. truncateText (content n) 200) (chunkAt chs (int i + 1))
         else None)\<rparr>"

definition everyChunk :: "bool \<Rightarrow> store \<Rightarrow> metadata list \<Rightarrow> searchResult list" where
  "everyChunk incl st ms =
     concat (map (\<lambda>m. case loadTranscript (sessionID m) st of
                         Inr (Some t) \<Rightarrow> map (vacuousResult incl m (chunks t)) [0 ..< length (chunks t)]
                       | _ \<Rightarrow> []) ms)"

definition limitOf :: "searchOptions \<Rightarrow> int" where
  "limitOf options = (case limit options of None \<Rightarrow> 10 | Some l \<Rightarrow> l)"

definition contextOf :: "searchOptions \<Rightarrow> bool" where
  "contextOf options = (case includeContext options of None \<Rightarrow> True | Some b \<Rightarrow> b)"

definition candidates :: "searchOptions \<Rightarrow> store \<Rightarrow> metadata list" where
  "candidates options st =
     listTranscripts \<lparr>optProjectID = searchProjectID options,
                      optSessionID = searchSessionID options,
                      optLimit = None\<rparr> st"

text \<open>
  The words of the specification on tool calls: a tool-invocation part gives a line
  with the tool name, a line with the serialized input and, only when the call is
  completed, a line with the first 1000 characters of its output. \<open>partLines\<close> is what
  one part adds to the content, \<open>contentParts\<close> the array of the same name once the loop
  over the parts is through, and \<open>hasLine l c\<close> says that \<open>l\<close> stands in \<open>c\<close> between
  line breaks or the ends of \<open>c\<close>.
\<close>

fun stateOutput :: "'j toolState \<Rightarrow> string option" where
  "stateOutput (ToolCompleted i out ttl) = Some out"
| "stateOutput (ToolPending i) = None"
| "stateOutput (ToolRunning i) = None"
| "stateOutput (ToolError i err) = None"

definition toolLines :: "('j \<Rightarrow> string) \<Rightarrow> string \<Rightarrow> 'j toolState \<Rightarrow> string list" where
  "toolLines stringify tool state =
     [''Tool: '' @ tool, ''Input: '' @ stringify (stateInput state)] @
     (case stateOutput state of
        Some out \<Rightarrow> [''Output: '' @ take 1000 out]
      | None \<Rightarrow> [])"

fun partLines :: "('j \<Rightarrow> string) \<Rightarrow> 'j part \<Rightarrow> string list" where
  "partLines stringify (TextPart t) = [t]"
| "partLines stringify (ReasoningPart t) = [t]"
| "partLines stringify (ToolPart tool state) = toolLines stringify tool state"
| "partLines stringify (OtherPart k) = []"

text \<open>
  The parts for which the loop pushes onto \<open>contentParts\<close>: text, reasoning and tool
  parts, whatever their text is.
\<close>

fun isContentPart :: "'j part \<Rightarrow> bool" where
  "isContentPart (TextPart t) = True"
| "isContentPart (ReasoningPart t) = True"
| "isContentPart (ToolPart tool state) = True"
| "isContentPart (OtherPart k) = False"

definition contentParts :: "('j \<Rightarrow> string) \<Rightarrow> 'j part list \<Rightarrow> string list" where
  "contentParts stringify ps = snd (partsLoop stringify ps)"

definition hasLine :: "string \<Rightarrow> string \<Rightarrow> bool" where
  "hasLine l c =
     (c = l \<or> prefix (l @ newline) c \<or> suffix (newline @ l) c \<or>
      sublist (newline @ l @ newline) c)"

text \<open>The chunk that the loop pushes for a message with content.\<close>

definition chunkOf :: "('j \<Rightarrow> string) \<Rightarrow> string \<Rightarrow> nat \<Rightarrow> 'j message \<Rightarrow> chunk" where
  "chunkOf stringify sid k msg =
     \<lparr>chunkID = ''chunk_'' @ showNat k,
      chunkSessionID = sid,
      messageID = msgID msg,
      role = msgRole msg,
      content = joinWith newline (contentParts stringify (parts msg)),
      timestamp = created msg,
      partTypes = uniqueInOrder (fst (partsLoop stringify (parts msg)))\<rparr>"

section \<open>Example data\<close>

definition exStore :: store where
  "exStore = \<lparr>homedir = ''/home/u'', indexJson = None, sessionDirs = (\<lambda>sid. None)\<rparr>"

definition exMetadata :: "string \<Rightarrow> nat \<Rightarrow> int \<Rightarrow> metadata" where
  "exMetadata sid n e =
     \<lparr>sessionID = sid, projectID = ''proj'', title = ''Title'', directory = ''/w'',
      worktree = ''/w'', createdAt = 100, updatedAt = 100, messageCount = n,
      compacted = False, compactedAt = None, expiresAt = e\<rparr>"

definition exChunk :: "string \<Rightarrow> string \<Rightarrow> string \<Rightarrow> int \<Rightarrow> chunk" where
  "exChunk cid sid c ts =
     \<lparr>chunkID = cid, chunkSessionID = sid, messageID = ''msg'', role = User,
      content = c, timestamp = ts, partTypes = [''text'']\<rparr>"

definition exTranscript :: "string \<Rightarrow> int \<Rightarrow> chunk list \<Rightarrow> transcript" where
  "exTranscript sid e chs =
     \<lparr>metadata = exMetadata sid (length chs) e, markdown = ''# Title'',
      plainText = ''Title'', chunks = chs\<rparr>"

definition exStoreWith :: "sessionDir \<Rightarrow> store" where
  "exStoreWith d = exStore\<lparr>sessionDirs := (sessionDirs exStore)(''ses_1'' \<mapsto> d)\<rparr>"

definition exDirNoChunks :: sessionDir where
  "exDirNoChunks =
     \<lparr>metadataJson = Some (Json (exMetadata ''ses_1'' 1 1000)),
      transcriptMd = Some ''# Title'', transcriptTxt = Some ''Title'', chunksDir = None\<rparr>"

definition exDirCorruptChunk :: sessionDir where
  "exDirCorruptChunk = exDirNoChunks\<lparr>chunksDir := Some [(''chunk_0.json'', Corrupt)]\<rparr>"

definition exDirCorruptMeta :: sessionDir where
  "exDirCorruptMeta = exDirNoChunks\<lparr>metadataJson := Some Corrupt\<rparr>"

definition exZero :: store where
  "exZero =
     snd (saveTranscript (exTranscript ''ses_1'' 0 [exChunk ''chunk_0'' ''ses_1'' ''hello'' 1])
            exStore)"

definition exOrphan :: store where
  "exOrphan =
     exStore\<lparr>indexJson :=
       Some (Json \<lparr>version = 1, transcripts = [(''ses_1'', exMetadata ''ses_1'' 1 1000)]\<rparr>)\<rparr>"

definition exTwo :: store where
  "exTwo =
     snd (saveTranscript (exTranscript ''ses_2'' 9000 [exChunk ''chunk_0'' ''ses_2'' ''world'' 2])
       (snd (saveTranscript (exTranscript ''ses_1'' 1000 [exChunk ''chunk_0'' ''ses_1'' ''hello'' 1])
          exStore)))"

definition exBlankSearch :: searchOptions where
  "exBlankSearch =
     \<lparr>query = ''  '', searchSessionID = None, searchProjectID = None, limit = Some 1,
      includeContext = None\<rparr>"

definition exFirst :: transcript where
  "exFirst =
     exTranscript ''ses_1'' 1000
       [exChunk ''chunk_0'' ''ses_1'' ''first question'' 1,
        exChunk ''chunk_1'' ''ses_1'' ''first answer'' 2]"

definition exSecond :: transcript where
  "exSecond = exTranscript ''ses_1'' 2000 [exChunk ''chunk_0'' ''ses_1'' ''other question'' 3]"

definition exPlugin :: "string plugin" where
  "exPlugin =
     \<lparr>renderMarkdown = (\<lambda>ms ttl. ''# '' @ ttl),
      renderText = (\<lambda>ms ttl. ttl),
      stringifyInput = (\<lambda>j. j),
      sessionGet = (\<lambda>sid. Inr (Some ''Title'')),
      sessionMessages =
        (\<lambda>sid. Inr (Some [\<lparr>msgID = ''msg_1'', msgRole = User, created = 10,
                               parts = [TextPart ''hello'']\<rparr>])),
      pluginProjectID = ''proj'',
      pluginDirectory = ''/w'',
      pluginWorktree = ''/w''\<rparr>"

definition exPlus :: store where
  "exPlus =
     snd (saveTranscript (exTranscript ''ses_1'' 9000 [exChunk ''chunk_0'' ''ses_1'' ''+1 for this'' 1])
            exStore)"

definition exPlusSearch :: searchOptions where
  "exPlusSearch =
     \<lparr>query = ''+1'', searchSessionID = None, searchProjectID = None, limit = None,
      includeContext = None\<rparr>"

definition exEmptyMsg :: "string message" where
  "exEmptyMsg = \<lparr>msgID = ''msg_0'', msgRole = Assistant, created = 5, parts = [OtherPart StepStart]\<rparr>"

definition exToolMsg :: "string message" where
  "exToolMsg =
     \<lparr>msgID = ''msg_1'', msgRole = Assistant, created = 6,
      parts = [ToolPart ''bash'' (ToolRunning ''{}'')]\<rparr>"

definition exDoneMsg :: "string message" where
  "exDoneMsg =
     \<lparr>msgID = ''msg_2'', msgRole = Assistant, created = 7,
      parts = [TextPart ''run it'', ToolPart ''bash'' (ToolCompleted ''{}'' ''ok'' ''ls''),
               OtherPart StepFinish]\<rparr>"

definition exBlankMsg :: "string message" where
  "exBlankMsg = \<lparr>msgID = ''msg_3'', msgRole = User, created = 8, parts = [TextPart []]\<rparr>"

section \<open>Facts about slices\<close>

lemma slice_take: "0 \<le> n \<Longrightarrow> slice xs 0 n = take (nat n) xs"
  by (auto simp: slice_def Let_def min_def)

lemma slice_inside:
  "0 \<le> a \<Longrightarrow> a \<le> b \<Longrightarrow> b \<le> int (length s) \<Longrightarrow>
   slice s a b = take (nat (b - a)) (drop (nat a) s)"
  by (simp add: slice_def Let_def min_def)

lemma length_slice_inside:
  "0 \<le> a \<Longrightarrow> a \<le> b \<Longrightarrow> b \<le> int (length s) \<Longrightarrow> length (slice s a b) = nat (b - a)"
  by (simp add: slice_inside)

section \<open>Properties of the search filter\<close>

lemma lowerChar_idem [simp]: "lowerChar (lowerChar c) = lowerChar c"
proof (cases "65 \<le> (of_char c :: nat) \<and> (of_char c :: nat) \<le> 90")
  case True
  then have "(of_char (char_of (of_char c + 32 :: nat)) :: nat) = of_char c + 32"
    by simp
  with True show ?thesis
    by (simp add: lowerChar_def Let_def)
next
  case False
  then show ?thesis
    by (auto simp: lowerChar_def Let_def)
qed

lemma toLowerCase_idem [simp]: "toLowerCase (toLowerCase s) = toLowerCase s"
  by (simp add: toLowerCase_def)

lemma lowerChar_space [simp]: "isSpace c \<Longrightarrow> lowerChar c = c"
  by (auto simp: isSpace_def lowerChar_def Let_def)

lemma sublist_iff_window:
  "sublist t ys \<longleftrightarrow> (\<exists>i \<le> length ys. take (length t) (drop i ys) = t)"
proof
  assume "sublist t ys"
  then obtain ps ss where "ys = ps @ t @ ss"
    by (auto simp: sublist_def)
  then have "length ps \<le> length ys \<and> take (length t) (drop (length ps) ys) = t"
    by simp
  then show "\<exists>i \<le> length ys. take (length t) (drop i ys) = t"
    by blast
next
  assume "\<exists>i \<le> length ys. take (length t) (drop i ys) = t"
  then obtain i where i: "take (length t) (drop i ys) = t"
    by blast
  have "ys = take i ys @ take (length t) (drop i ys) @ drop (length t) (drop i ys)"
    by (simp only: append_take_drop_id)
  with i have "ys = take i ys @ t @ drop (length t) (drop i ys)"
    by simp
  then show "sublist t ys"
    unfolding sublist_def by blast
qed

lemma includes_lower_iff_ciOccurs:
  assumes "toLowerCase t = t"
  shows "strIncludes (toLowerCase C) t \<longleftrightarrow> ciOccurs t C"
proof -
  have "strIncludes (toLowerCase C) t \<longleftrightarrow>
        (\<exists>i \<le> length C. take (length t) (drop i (toLowerCase C)) = t)"
    by (simp add: strIncludes_def sublist_iff_window toLowerCase_def)
  also have "\<dots> \<longleftrightarrow> (\<exists>i \<le> length C. toLowerCase (take (length t) (drop i C)) = toLowerCase t)"
    using assms by (simp add: toLowerCase_def take_map drop_map)
  also have "\<dots> \<longleftrightarrow> ciOccurs t C"
    by (auto simp del: upt_Suc
        simp: ciOccurs_def ciOccurrencePositions_def filter_empty_conv less_Suc_eq_le)
  finally show ?thesis .
qed

lemma splitAux_chars:
  "t \<in> set (splitAux b cur s) \<Longrightarrow> set t \<subseteq> set cur \<union> set s"
proof (induction s arbitrary: b cur)
  case Nil
  then show ?case by simp
next
  case (Cons c cs)
  show ?case
  proof (cases "isSpace c")
    case True
    with Cons.prems have "t = rev cur \<or> t \<in> set (splitAux True [] cs)"
      by (auto split: if_splits)
    then show ?thesis
      using Cons.IH [of True "[]"] by auto
  next
    case False
    with Cons.prems have "t \<in> set (splitAux False (c # cur) cs)"
      by simp
    then show ?thesis
      using Cons.IH [of False "c # cur"] by auto
  qed
qed

lemma searchTerms_lower: "t \<in> set (searchTerms q) \<Longrightarrow> toLowerCase t = t"
proof -
  assume "t \<in> set (searchTerms q)"
  then have "set t \<subseteq> set (toLowerCase q)"
    using splitAux_chars [of t False "[]" "toLowerCase q"]
    by (auto simp: searchTerms_def splitWhitespace_def)
  then have "\<forall>c \<in> set t. lowerChar c = c"
    by (auto simp: toLowerCase_def)
  then show ?thesis
    by (simp add: toLowerCase_def map_idI)
qed

lemma searchTerms_nonempty: "t \<in> set (searchTerms q) \<Longrightarrow> t \<noteq> []"
  by (simp add: searchTerms_def)

lemma splitAux_spaces:
  "\<forall>c \<in> set s. isSpace c \<Longrightarrow> set (splitAux b [] s) \<subseteq> {[]}"
  by (induction s arbitrary: b) auto

lemma searchTerms_blank: "\<forall>c \<in> set q. isSpace c \<Longrightarrow> searchTerms q = []"
proof -
  assume a: "\<forall>c \<in> set q. isSpace c"
  then have "toLowerCase q = q"
    by (simp add: toLowerCase_def map_idI)
  with a have "set (splitWhitespace (toLowerCase q)) \<subseteq> {[]}"
    by (simp add: splitWhitespace_def splitAux_spaces)
  then show ?thesis
    by (auto simp: searchTerms_def filter_empty_conv)
qed

lemma chunkMatches_iff:
  "chunkMatches terms C \<longleftrightarrow> (\<forall>t \<in> set terms. strIncludes (toLowerCase C) t)"
  by (simp add: chunkMatches_def list_all_iff)

text \<open>
  C3. The filter is a conjunction of case-insensitive substring tests. For the term
  list that the search derives from any query, and for any list of lower-case terms
  (the terms of a query are in lower case), a chunk passes the filter exactly when every
  term occurs in its content as a case-insensitive substring. Taking a term out of a
  term list can only let more chunks pass: a chunk that passes under \<open>T\<close> passes under
  \<open>T\<close> without \<open>u\<close>.
\<close>

theorem search_conjunctive_match:
  "(chunkMatches (searchTerms q) C \<longleftrightarrow> (\<forall>t \<in> set (searchTerms q). ciOccurs t C)) \<and>
   ((\<forall>t \<in> set T. toLowerCase t = t) \<longrightarrow>
      (chunkMatches T C \<longleftrightarrow> (\<forall>t \<in> set T. ciOccurs t C))) \<and>
   (chunkMatches T C \<longrightarrow> chunkMatches (remove1 u T) C)"
proof (intro conjI)
  show "chunkMatches (searchTerms q) C \<longleftrightarrow> (\<forall>t \<in> set (searchTerms q). ciOccurs t C)"
    by (simp add: chunkMatches_iff includes_lower_iff_ciOccurs searchTerms_lower)
  show "(\<forall>t \<in> set T. toLowerCase t = t) \<longrightarrow>
          (chunkMatches T C \<longleftrightarrow> (\<forall>t \<in> set T. ciOccurs t C))"
    by (simp add: chunkMatches_iff includes_lower_iff_ciOccurs)
  show "chunkMatches T C \<longrightarrow> chunkMatches (remove1 u T) C"
    using set_remove1_subset [of u T] by (auto simp: chunkMatches_iff)
qed

text \<open>
  Scenario A of the specification as an instance: the query \<open>S3 Bucket\<close> against the
  content \<open>the S3 bucket path is /data/uploads\<close>.
\<close>

theorem search_conjunctive_match_witness:
  "searchTerms ''S3 Bucket'' = [''s3'', ''bucket''] \<and>
   list_all (\<lambda>t. toLowerCase t = t) [''s3'', ''bucket''] \<and>
   chunkMatches (searchTerms ''S3 Bucket'') ''the S3 bucket path is /data/uploads'' \<and>
   ciOccurs ''s3'' ''the S3 bucket path is /data/uploads'' \<and>
   ciOccurs ''bucket'' ''the S3 bucket path is /data/uploads'' \<and>
   chunkMatches (remove1 ''s3'' [''s3'', ''bucket'']) ''the S3 bucket path is /data/uploads''"
proof -
  have t: "searchTerms ''S3 Bucket'' = [''s3'', ''bucket'']"
    by code_simp
  have l: "list_all (\<lambda>t. toLowerCase t = t) [''s3'', ''bucket'']"
    by code_simp
  have a: "chunkMatches (searchTerms ''S3 Bucket'') ''the S3 bucket path is /data/uploads''"
    by code_simp
  have b: "chunkMatches [''s3'', ''bucket''] ''the S3 bucket path is /data/uploads''"
    by code_simp
  from l have l': "\<forall>t \<in> set [''s3'', ''bucket'']. toLowerCase t = t"
    by (simp only: list_all_iff)
  from a b l'
    search_conjunctive_match [of "''S3 Bucket''" "''the S3 bucket path is /data/uploads''"
      "[''s3'', ''bucket'']" "''s3''"]
  have "(\<forall>t \<in> set [''s3'', ''bucket'']. ciOccurs t ''the S3 bucket path is /data/uploads'') \<and>
        chunkMatches (remove1 ''s3'' [''s3'', ''bucket'']) ''the S3 bucket path is /data/uploads''"
    by blast
  with t l a show ?thesis
    by simp
qed

section \<open>Listing with a limit\<close>

text \<open>
  C10. A limit of 0 is not applied: \<open>listTranscripts\<close> with \<open>limit = 0\<close> returns what it
  returns with no limit at all, that is every transcript of the index that passes the
  project and session filters, most recently updated first.
\<close>

theorem listTranscripts_limit_zero:
  "listTranscripts (options\<lparr>optLimit := Some 0\<rparr>) st =
     listTranscripts (options\<lparr>optLimit := None\<rparr>) st \<and>
   listTranscripts (options\<lparr>optLimit := Some 0\<rparr>) st =
     sort_key (\<lambda>t. - updatedAt t)
       (filter (\<lambda>t. (if truthyString (optProjectID options)
                      then Some (projectID t) = optProjectID options else True) \<and>
                     (if truthyString (optSessionID options)
                      then Some (sessionID t) = optSessionID options else True))
          (map snd (transcripts (readIndex st))))"
  by (simp add: listTranscripts_def truthyNumber_def Let_def conj_commute)

section \<open>The read paths\<close>

text \<open>
  C7, as the code has it. None of \<open>loadTranscript\<close>, \<open>loadTranscriptMarkdown\<close> and
  \<open>loadTranscriptText\<close> throws. \<open>loadTranscript\<close> returns \<open>null\<close> exactly when
  \<open>metadata.json\<close> is missing or does not parse or one of the two rendered texts is
  missing; the two partial loads return \<open>null\<close> exactly when their own file is missing.
  A missing chunks directory is no failure of the load: the transcript comes back with
  no chunks.
\<close>

theorem read_paths_absent:
  "(\<exists>r. loadTranscript sid st = Inr r) \<and>
   (\<exists>r. loadTranscriptMarkdown sid st = Inr r) \<and>
   (\<exists>r. loadTranscriptText sid st = Inr r) \<and>
   (loadTranscript sid st = Inr None \<longleftrightarrow> \<not> coreReadable sid st) \<and>
   (loadTranscriptMarkdown sid st = Inr None \<longleftrightarrow> fileOf transcriptMd sid st = None) \<and>
   (loadTranscriptText sid st = Inr None \<longleftrightarrow> fileOf transcriptTxt sid st = None) \<and>
   (coreReadable sid st \<and> fileOf chunksDir sid st = None \<longrightarrow>
      (\<exists>t. loadTranscript sid st = Inr (Some t) \<and> chunks t = []))"
  by (auto simp: loadTranscript_def loadTranscriptBody_def loadTranscriptMarkdown_def
      loadTranscriptText_def coreReadable_def fileOf_def readJson_def readText_def
      tryLoadChunks_def
      split: option.splits sum.splits jsonFile.splits)

theorem read_paths_absent_witness:
  "coreReadable ''ses_1'' (exStoreWith exDirNoChunks) \<and>
   fileOf chunksDir ''ses_1'' (exStoreWith exDirNoChunks) = None \<and>
   (\<exists>t. loadTranscript ''ses_1'' (exStoreWith exDirNoChunks) = Inr (Some t) \<and> chunks t = []) \<and>
   loadTranscript ''ses_1'' exStore = Inr None"
proof -
  have a: "coreReadable ''ses_1'' (exStoreWith exDirNoChunks)"
    by code_simp
  have b: "fileOf chunksDir ''ses_1'' (exStoreWith exDirNoChunks) = None"
    by code_simp
  have c: "\<not> coreReadable ''ses_1'' exStore"
    by code_simp
  from a b read_paths_absent [of "''ses_1''" "exStoreWith exDirNoChunks"]
  have "\<exists>t. loadTranscript ''ses_1'' (exStoreWith exDirNoChunks) = Inr (Some t) \<and> chunks t = []"
    by blast
  moreover from c read_paths_absent [of "''ses_1''" exStore]
  have "loadTranscript ''ses_1'' exStore = Inr None"
    by blast
  ultimately show ?thesis
    using a b by blast
qed

text \<open>
  The claim as stated fails. Listing a missing chunks directory fails, and so does
  parsing a corrupt chunk file, yet \<open>loadTranscript\<close> returns a transcript; and a
  record whose \<open>metadata.json\<close> is corrupt still answers \<open>loadTranscriptMarkdown\<close>, which a
  missing record does not.
\<close>

theorem read_paths_counterexample:
  "tryLoadChunks exDirNoChunks = (Inl ENOENT, []) \<and>
   loadTranscript ''ses_1'' (exStoreWith exDirNoChunks) =
     Inr (Some \<lparr>metadata = exMetadata ''ses_1'' 1 1000, markdown = ''# Title'',
                 plainText = ''Title'', chunks = []\<rparr>) \<and>
   tryLoadChunks exDirCorruptChunk = (Inl JSONParseError, []) \<and>
   loadTranscript ''ses_1'' (exStoreWith exDirCorruptChunk) =
     Inr (Some \<lparr>metadata = exMetadata ''ses_1'' 1 1000, markdown = ''# Title'',
                 plainText = ''Title'', chunks = []\<rparr>) \<and>
   readJson (metadataJson exDirCorruptMeta) = Inl JSONParseError \<and>
   loadTranscript ''ses_1'' (exStoreWith exDirCorruptMeta) = Inr None \<and>
   loadTranscriptMarkdown ''ses_1'' (exStoreWith exDirCorruptMeta) = Inr (Some ''# Title'') \<and>
   loadTranscriptMarkdown ''ses_1'' exStore = Inr None"
  by code_simp

section \<open>The retention sweep\<close>

lemma sweepLoop_count:
  "fst (sweepLoop now es n st) = n + length (filter (\<lambda>e. expired now (snd e)) es)"
  by (induction es arbitrary: n st) (auto simp: expired_def)

lemma objDelete_filter:
  "distinct (map fst kvs) \<Longrightarrow> objDelete k kvs = filter (\<lambda>e. fst e \<noteq> k) kvs"
proof (induction kvs)
  case Nil
  then show ?case by simp
next
  case (Cons e kvs)
  obtain k' v' where e: "e = (k', v')" by (cases e)
  show ?case
  proof (cases "k' = k")
    case True
    with Cons.prems e have "\<forall>x \<in> set kvs. fst x \<noteq> k"
      by auto
    then have "filter (\<lambda>e. fst e \<noteq> k) kvs = kvs"
      by (simp add: filter_id_conv)
    with True e show ?thesis by simp
  next
    case False
    with Cons e show ?thesis by simp
  qed
qed

lemma readIndex_writeIndex [simp]: "readIndex (writeIndex idx st) = idx"
  by (simp add: readIndex_def writeIndex_def readJson_def)

lemma sessionDirs_writeIndex [simp]: "sessionDirs (writeIndex idx st) = sessionDirs st"
  by (simp add: writeIndex_def)

lemma deleteTranscript_present:
  assumes "sessionDirs st sid = Some d"
  shows "transcripts (readIndex (deleteTranscript sid st)) = objDelete sid (transcripts (readIndex st))"
    and "sessionDirs (deleteTranscript sid st) = (sessionDirs st)(sid := None)"
proof -
  have idx: "readIndex (st\<lparr>sessionDirs := f\<rparr>) = readIndex st" for f
    by (simp add: readIndex_def)
  show "transcripts (readIndex (deleteTranscript sid st)) = objDelete sid (transcripts (readIndex st))"
    using assms
    by (cases "chunksDir d")
       (simp_all add: deleteTranscript_def removeIndexEntry_def Let_def emptyDir_def idx)
  show "sessionDirs (deleteTranscript sid st) = (sessionDirs st)(sid := None)"
    using assms
    by (cases "chunksDir d")
       (simp_all add: deleteTranscript_def removeIndexEntry_def Let_def emptyDir_def)
qed

lemma deleteTranscript_missing:
  "sessionDirs st sid = None \<Longrightarrow> deleteTranscript sid st = st"
  by (simp add: deleteTranscript_def)

lemma sweepLoop_effect:
  assumes "distinct (map fst (transcripts (readIndex st)))"
      and "distinct (map fst es)"
      and "\<forall>e \<in> set es. sessionDirs st (fst e) \<noteq> None"
  shows "transcripts (readIndex (snd (sweepLoop now es n st))) =
           filter (\<lambda>e. fst e \<notin> fst ` {x \<in> set es. expired now (snd x)}) (transcripts (readIndex st)) \<and>
         sessionDirs (snd (sweepLoop now es n st)) =
           (\<lambda>k. if k \<in> fst ` {x \<in> set es. expired now (snd x)} then None else sessionDirs st k)"
  using assms
proof (induction es arbitrary: n st)
  case Nil
  then show ?case by simp
next
  case (Cons e es)
  obtain sid m where e: "e = (sid, m)" by (cases e)
  show ?case
  proof (cases "expired now m")
    case False
    have "{x \<in> set (e # es). expired now (snd x)} = {x \<in> set es. expired now (snd x)}"
      using False e by auto
    moreover have "sweepLoop now (e # es) n st = sweepLoop now es n st"
      using False e by (auto simp: expired_def)
    ultimately show ?thesis
      using Cons.IH [of st n] Cons.prems by simp
  next
    case True
    from Cons.prems e obtain d where d: "sessionDirs st sid = Some d"
      by auto
    let ?st1 = "deleteTranscript sid st"
    have idx1: "transcripts (readIndex ?st1) = filter (\<lambda>x. fst x \<noteq> sid) (transcripts (readIndex st))"
      using deleteTranscript_present(1) [OF d] Cons.prems(1) by (simp add: objDelete_filter)
    have dirs1: "sessionDirs ?st1 = (sessionDirs st)(sid := None)"
      using deleteTranscript_present(2) [OF d] .
    have notin: "sid \<notin> fst ` set es"
      using Cons.prems(2) e by simp
    have p1: "distinct (map fst (transcripts (readIndex ?st1)))"
      using Cons.prems(1) by (simp add: idx1 distinct_map_filter)
    have p2: "distinct (map fst es)"
      using Cons.prems(2) by simp
    have p3: "\<forall>x \<in> set es. sessionDirs ?st1 (fst x) \<noteq> None"
      using Cons.prems(3) notin by (auto simp: dirs1)
    have step: "sweepLoop now (e # es) n st = sweepLoop now es (Suc n) ?st1"
      using True e by (simp add: expired_def)
    have D: "fst ` {x \<in> set (e # es). expired now (snd x)} =
             insert sid (fst ` {x \<in> set es. expired now (snd x)})"
      using True e by force
    from Cons.IH [OF p1 p2 p3, of "Suc n"]
    have ih1: "transcripts (readIndex (snd (sweepLoop now es (Suc n) ?st1))) =
            filter (\<lambda>x. fst x \<notin> fst ` {x \<in> set es. expired now (snd x)}) (transcripts (readIndex ?st1))"
      and ih2: "sessionDirs (snd (sweepLoop now es (Suc n) ?st1)) =
            (\<lambda>k. if k \<in> fst ` {x \<in> set es. expired now (snd x)} then None else sessionDirs ?st1 k)"
      by simp_all
    have a: "transcripts (readIndex (snd (sweepLoop now (e # es) n st))) =
           filter (\<lambda>x. fst x \<notin> fst ` {x \<in> set (e # es). expired now (snd x)}) (transcripts (readIndex st))"
      unfolding step ih1 idx1 D by (auto intro: filter_cong)
    have b: "sessionDirs (snd (sweepLoop now (e # es) n st)) =
           (\<lambda>k. if k \<in> fst ` {x \<in> set (e # es). expired now (snd x)} then None else sessionDirs st k)"
      unfolding step ih2 dirs1 D by auto
    from a b show ?thesis by simp
  qed
qed

lemma expired_keys:
  assumes "distinct (map fst es)" and "e \<in> set es"
  shows "fst e \<in> fst ` {x \<in> set es. expired now (snd x)} \<longleftrightarrow> expired now (snd e)"
proof
  assume "fst e \<in> fst ` {x \<in> set es. expired now (snd x)}"
  then obtain x where x: "x \<in> set es" "expired now (snd x)" "fst x = fst e"
    by auto
  with assms have "x = e"
    by (metis eq_key_imp_eq_value prod.collapse)
  with x show "expired now (snd e)" by simp
next
  assume "expired now (snd e)"
  with assms(2) show "fst e \<in> fst ` {x \<in> set es. expired now (snd x)}"
    by auto
qed

text \<open>
  C5, as the code has it. On a store in which every entry of the index has its session
  directory (and the keys of the index are distinct, as the keys of an object are), the
  sweep counts and removes exactly the entries that are due, those whose \<open>expiresAt\<close> is
  not 0 and strictly before \<open>now\<close>: they leave the index and their directories leave the
  disk, every other entry stays as it was. A second sweep at the same clock value counts
  0.
\<close>

theorem sweep_removes_expired_idempotent:
  assumes "distinct (map fst (transcripts (readIndex st)))"
      and "\<forall>e \<in> set (transcripts (readIndex st)). sessionDirs st (fst e) \<noteq> None"
  shows "fst (cleanupExpiredTranscripts now st) =
           length (filter (\<lambda>e. expired now (snd e)) (transcripts (readIndex st))) \<and>
         transcripts (readIndex (snd (cleanupExpiredTranscripts now st))) =
           filter (\<lambda>e. \<not> expired now (snd e)) (transcripts (readIndex st)) \<and>
         (\<forall>e \<in> set (transcripts (readIndex st)).
            sessionDirs (snd (cleanupExpiredTranscripts now st)) (fst e) =
              (if expired now (snd e) then None else sessionDirs st (fst e))) \<and>
         fst (cleanupExpiredTranscripts now (snd (cleanupExpiredTranscripts now st))) = 0"
proof -
  let ?es = "transcripts (readIndex st)"
  let ?st' = "snd (cleanupExpiredTranscripts now st)"
  have st': "?st' = snd (sweepLoop now ?es 0 st)"
    by (simp add: cleanupExpiredTranscripts_def)
  from sweepLoop_effect [OF assms(1) assms(1) assms(2), of now 0]
  have idx: "transcripts (readIndex ?st') =
               filter (\<lambda>e. fst e \<notin> fst ` {x \<in> set ?es. expired now (snd x)}) ?es"
    and dirs: "sessionDirs ?st' =
               (\<lambda>k. if k \<in> fst ` {x \<in> set ?es. expired now (snd x)} then None else sessionDirs st k)"
    unfolding st' by simp_all
  have c1: "fst (cleanupExpiredTranscripts now st) = length (filter (\<lambda>e. expired now (snd e)) ?es)"
    by (simp add: cleanupExpiredTranscripts_def sweepLoop_count)
  have c2: "transcripts (readIndex ?st') = filter (\<lambda>e. \<not> expired now (snd e)) ?es"
    unfolding idx
  proof (rule filter_cong [OF refl])
    fix e assume "e \<in> set ?es"
    then show "(fst e \<notin> fst ` {x \<in> set ?es. expired now (snd x)}) = (\<not> expired now (snd e))"
      using expired_keys [OF assms(1)] by simp
  qed
  have c3: "\<forall>e \<in> set ?es. sessionDirs ?st' (fst e) =
              (if expired now (snd e) then None else sessionDirs st (fst e))"
    unfolding dirs using expired_keys [OF assms(1)] by simp
  have "fst (cleanupExpiredTranscripts now ?st') =
          length (filter (\<lambda>e. expired now (snd e)) (transcripts (readIndex ?st')))"
    by (simp add: cleanupExpiredTranscripts_def sweepLoop_count)
  also have "\<dots> = length (filter (\<lambda>e. expired now (snd e)) (filter (\<lambda>e. \<not> expired now (snd e)) ?es))"
    by (simp only: c2)
  also have "\<dots> = 0"
    by (simp add: filter_empty_conv)
  finally have c4: "fst (cleanupExpiredTranscripts now ?st') = 0" .
  from c1 c2 c3 c4 show ?thesis by blast
qed

theorem sweep_removes_expired_idempotent_witness:
  "distinct (map fst (transcripts (readIndex exTwo))) \<and>
   list_all (\<lambda>e. sessionDirs exTwo (fst e) \<noteq> None) (transcripts (readIndex exTwo)) \<and>
   map fst (transcripts (readIndex exTwo)) = [''ses_1'', ''ses_2''] \<and>
   fst (cleanupExpiredTranscripts 5000 exTwo) = 1 \<and>
   map fst (transcripts (readIndex (snd (cleanupExpiredTranscripts 5000 exTwo)))) = [''ses_2''] \<and>
   fst (cleanupExpiredTranscripts 5000 (snd (cleanupExpiredTranscripts 5000 exTwo))) = 0"
proof -
  have a: "distinct (map fst (transcripts (readIndex exTwo)))"
    by code_simp
  have b: "list_all (\<lambda>e. sessionDirs exTwo (fst e) \<noteq> None) (transcripts (readIndex exTwo))"
    by code_simp
  have c: "map fst (transcripts (readIndex exTwo)) = [''ses_1'', ''ses_2'']"
    by code_simp
  have d: "fst (cleanupExpiredTranscripts 5000 exTwo) = 1"
    by code_simp
  have e: "map fst (transcripts (readIndex (snd (cleanupExpiredTranscripts 5000 exTwo)))) = [''ses_2'']"
    by code_simp
  from b have b': "\<forall>e \<in> set (transcripts (readIndex exTwo)). sessionDirs exTwo (fst e) \<noteq> None"
    by (simp add: list_all_iff)
  from sweep_removes_expired_idempotent [OF a b', of 5000]
  have "fst (cleanupExpiredTranscripts 5000 (snd (cleanupExpiredTranscripts 5000 exTwo))) = 0"
    by blast
  with a b c d e show ?thesis
    by blast
qed

text \<open>
  The claim as stated fails in two places. An entry whose \<open>expiresAt\<close> is 0 is strictly
  before \<open>now\<close> and is not removed. An entry of the index whose session directory is
  missing is counted by every sweep and never leaves the index, so the second sweep does
  not count 0.
\<close>

theorem sweep_counterexample:
  "expiresAt (exMetadata ''ses_1'' 1 0) < 5000 \<and>
   fst (cleanupExpiredTranscripts 5000 exZero) = 0 \<and>
   transcripts (readIndex (snd (cleanupExpiredTranscripts 5000 exZero))) =
     [(''ses_1'', exMetadata ''ses_1'' 1 0)] \<and>
   fst (cleanupExpiredTranscripts 5000 exOrphan) = 1 \<and>
   fst (cleanupExpiredTranscripts 5000 (snd (cleanupExpiredTranscripts 5000 exOrphan))) = 1"
  by code_simp

section \<open>The blank query\<close>

lemma chunkResult_no_terms:
  "i < length chs \<Longrightarrow> chunkResult [] incl m chs i = Inr (Some (vacuousResult incl m chs i))"
  by (simp add: chunkResult_def chunkAt_def chunkMatches_def relevanceScore_def
      createExcerpt_def findBestIndex_def vacuousResult_def)

lemma chunksLoop_no_terms:
  "\<forall>i \<in> set is. i < length chs \<Longrightarrow>
   chunksLoop [] incl m chs is results = Inr (results @ map (vacuousResult incl m chs) is)"
  by (induction "is" arbitrary: results) (simp_all add: chunkResult_no_terms)

lemma transcriptsLoop_no_terms:
  "transcriptsLoop [] incl st ms results = Inr (results @ everyChunk incl st ms)"
proof (induction ms arbitrary: results)
  case Nil
  then show ?case by (simp add: everyChunk_def)
next
  case (Cons m ms)
  have never: "\<forall>e. loadTranscript (sessionID m) st \<noteq> Inl e"
    by (simp add: loadTranscript_def split: sum.splits)
  show ?case
  proof (cases "loadTranscript (sessionID m) st")
    case (Inl e)
    with never show ?thesis by simp
  next
    case (Inr r)
    show ?thesis
    proof (cases r)
      case None
      with Inr Cons.IH show ?thesis
        by (simp add: everyChunk_def)
    next
      case (Some t)
      have "chunksLoop [] incl m (chunks t) [0 ..< length (chunks t)] results =
              Inr (results @ map (vacuousResult incl m (chunks t)) [0 ..< length (chunks t)])"
        by (rule chunksLoop_no_terms) simp
      with Inr Some Cons.IH show ?thesis
        by (simp add: everyChunk_def)
    qed
  qed
qed

lemma score_everyChunk: "r \<in> set (everyChunk incl st ms) \<Longrightarrow> score r = 0"
  by (auto simp: everyChunk_def vacuousResult_def split: sum.splits option.splits)

lemma sort_key_all_equal:
  assumes "\<forall>x \<in> set xs. f x = (k::int)"
  shows "sort_key f xs = xs"
proof -
  have "map f xs = replicate (length xs) k"
    using assms by (simp add: map_replicate_const [symmetric] cong: map_cong)
  then have "sorted (map f xs)"
    by simp
  then show ?thesis
    by (rule sort_key_id_if_sorted)
qed

text \<open>
  C9. A query that is empty or all white space gives no terms. Then every chunk of every
  candidate transcript passes the filter with score 0, and the search returns them in
  the order of the iteration, cut to the limit: an all-match result, which is not empty
  as soon as there is a chunk and the limit is positive.
\<close>

theorem blank_query_returns_every_chunk:
  assumes "\<forall>c \<in> set (query options). isSpace c"
  shows "searchTerms (query options) = [] \<and>
         searchTranscripts options st =
           Inr (slice (everyChunk (contextOf options) st (candidates options st)) 0 (limitOf options)) \<and>
         (0 \<le> limitOf options \<longrightarrow>
            searchTranscripts options st =
              Inr (take (nat (limitOf options))
                     (everyChunk (contextOf options) st (candidates options st)))) \<and>
         (0 < limitOf options \<and> everyChunk (contextOf options) st (candidates options st) \<noteq> [] \<longrightarrow>
            searchTranscripts options st \<noteq> Inr [])"
proof -
  let ?all = "everyChunk (contextOf options) st (candidates options st)"
  have terms: "searchTerms (query options) = []"
    using assms by (rule searchTerms_blank)
  have "sort_key (\<lambda>r. - int (score r)) ?all = ?all"
    by (rule sort_key_all_equal [where k = 0]) (simp add: score_everyChunk)
  then have res: "searchTranscripts options st = Inr (slice ?all 0 (limitOf options))"
    by (simp add: searchTranscripts_def Let_def terms transcriptsLoop_no_terms
        contextOf_def limitOf_def candidates_def)
  have tk: "0 \<le> limitOf options \<longrightarrow>
            searchTranscripts options st = Inr (take (nat (limitOf options)) ?all)"
    by (simp add: res slice_take)
  have ne: "0 < limitOf options \<and> ?all \<noteq> [] \<longrightarrow> searchTranscripts options st \<noteq> Inr []"
    by (auto simp: res slice_take)
  from terms res tk ne show ?thesis by blast
qed

theorem blank_query_returns_every_chunk_witness:
  "list_all isSpace (query exBlankSearch) \<and>
   searchTerms (query exBlankSearch) = [] \<and>
   0 < limitOf exBlankSearch \<and>
   length (everyChunk (contextOf exBlankSearch) exTwo (candidates exBlankSearch exTwo)) = 2 \<and>
   searchTranscripts exBlankSearch exTwo =
     Inr (take 1 (everyChunk (contextOf exBlankSearch) exTwo (candidates exBlankSearch exTwo))) \<and>
   searchTranscripts exBlankSearch exTwo \<noteq> Inr []"
proof -
  have a: "list_all isSpace (query exBlankSearch)"
    by code_simp
  have b: "0 < limitOf exBlankSearch" "nat (limitOf exBlankSearch) = 1"
    by code_simp+
  have c: "length (everyChunk (contextOf exBlankSearch) exTwo (candidates exBlankSearch exTwo)) = 2"
    by code_simp
  from a have a': "\<forall>c \<in> set (query exBlankSearch). isSpace c"
    by (simp add: list_all_iff)
  from c have c': "everyChunk (contextOf exBlankSearch) exTwo (candidates exBlankSearch exTwo) \<noteq> []"
    by auto
  note inst = blank_query_returns_every_chunk [OF a', of exTwo]
  from inst have t: "searchTerms (query exBlankSearch) = []"
    by blast
  from b(1) have b0: "0 \<le> limitOf exBlankSearch"
    by simp
  from inst b0 have "searchTranscripts exBlankSearch exTwo =
      Inr (take (nat (limitOf exBlankSearch))
             (everyChunk (contextOf exBlankSearch) exTwo (candidates exBlankSearch exTwo)))"
    by blast
  then have tk: "searchTranscripts exBlankSearch exTwo =
      Inr (take 1 (everyChunk (contextOf exBlankSearch) exTwo (candidates exBlankSearch exTwo)))"
    by (simp only: b(2))
  from inst b(1) c' have ne: "searchTranscripts exBlankSearch exTwo \<noteq> Inr []"
    by blast
  from a t b(1) c tk ne show ?thesis
    by blast
qed

section \<open>Saving twice\<close>

text \<open>
  C1 at a concrete input: the session \<open>ses_1\<close> is saved with two chunks and then with
  one. The second save overwrites \<open>chunk_0.json\<close> and leaves \<open>chunk_1.json\<close> of the
  first save in the chunks directory, and the load that follows returns it next to the
  chunk of the second save.
\<close>

theorem save_leaves_stale_chunk:
  "chunks exSecond = [exChunk ''chunk_0'' ''ses_1'' ''other question'' 3] \<and>
   map_option (map fst)
     (fileOf chunksDir ''ses_1'' (snd (saveTranscript exSecond (snd (saveTranscript exFirst exStore))))) =
     Some [''chunk_0.json'', ''chunk_1.json''] \<and>
   loadTranscript ''ses_1'' (snd (saveTranscript exSecond (snd (saveTranscript exFirst exStore)))) =
     Inr (Some \<lparr>metadata = exMetadata ''ses_1'' 1 2000, markdown = ''# Title'',
                 plainText = ''Title'',
                 chunks = [exChunk ''chunk_1'' ''ses_1'' ''first answer'' 2,
                           exChunk ''chunk_0'' ''ses_1'' ''other question'' 3]\<rparr>)"
  by code_simp

section \<open>The compacted flag\<close>

text \<open>
  C2 at a concrete input: the session \<open>ses_1\<close> is compacted at time 1000 and becomes
  idle at time 2000. After the first event the index and \<open>metadata.json\<close> say
  \<open>compacted = true\<close>; the save of the idle event builds its metadata with
  \<open>compacted = false\<close> and overwrites both.
\<close>

theorem idle_save_resets_compacted:
  "map (\<lambda>e. (fst e, compacted (snd e)))
     (transcripts (readIndex (handleEvents exPlugin [(1000, SessionCompacted ''ses_1'')] exStore))) =
     [(''ses_1'', True)] \<and>
   map (\<lambda>e. (fst e, compacted (snd e)))
     (transcripts (readIndex (handleEvents exPlugin
        [(1000, SessionCompacted ''ses_1''), (2000, SessionIdle ''ses_1'')] exStore))) =
     [(''ses_1'', False)] \<and>
   (case loadTranscript ''ses_1'' (handleEvents exPlugin
        [(1000, SessionCompacted ''ses_1''), (2000, SessionIdle ''ses_1'')] exStore) of
      Inr (Some t) \<Rightarrow> Some (compacted (metadata t), compactedAt (metadata t))
    | _ \<Rightarrow> None) = Some (False, None)"
  by code_simp

section \<open>The score\<close>

text \<open>
  C4 at concrete inputs. The term \<open>a.\<close> occurs once in the content \<open>a.ab\<close>, at offset
  0, and the chunk passes the filter; the score is 2, because the term is compiled as a
  regular expression in which the dot is a wild card. The term \<open>+1\<close> occurs in
  \<open>+1 for this\<close> and the chunk passes the filter; computing the score throws a
  SyntaxError, and so does the whole search.
\<close>

theorem score_reads_term_as_regex:
  "searchTerms ''a.'' = [''a.''] \<and>
   chunkMatches [''a.''] ''a.ab'' \<and>
   ciOccurrencePositions ''a.'' ''a.ab'' = [0] \<and>
   relevanceScore ''a.ab'' [''a.''] = Inr 2 \<and>
   searchTerms ''+1'' = [''+1''] \<and>
   chunkMatches [''+1''] ''+1 for this'' \<and>
   ciOccurrencePositions ''+1'' ''+1 for this'' = [0] \<and>
   relevanceScore ''+1 for this'' [''+1''] = Inl RegExpSyntaxError \<and>
   searchTranscripts exPlusSearch exPlus = Inl RegExpSyntaxError"
  by code_simp

section \<open>The excerpt\<close>

lemma indexOfFrom_range: "indexOfFrom i s t = -1 \<or> int i \<le> indexOfFrom i s t"
  by (induction s arbitrary: i) force+

lemma indexOf_range: "indexOf s t = -1 \<or> 0 \<le> indexOf s t"
  using indexOfFrom_range [of 0 s t] by (simp add: indexOf_def)

lemma bestIndexLoop_range:
  "0 \<le> best \<Longrightarrow> 0 \<le> bestIndexLoop s ts best \<and> bestIndexLoop s ts best \<le> best"
proof (induction ts arbitrary: best)
  case Nil
  then show ?case by simp
next
  case (Cons t ts)
  let ?b = "if indexOf s t \<noteq> -1 \<and> indexOf s t < best then indexOf s t else best"
  have "0 \<le> ?b" and le: "?b \<le> best"
    using Cons.prems indexOf_range [of s t] by auto
  from Cons.IH [OF this(1)] le show ?case
    by (simp add: Let_def)
qed

lemma findBestIndex_range:
  "0 \<le> findBestIndex C T \<and> findBestIndex C T \<le> int (length C)"
  unfolding findBestIndex_def by (rule bestIndexLoop_range) simp

lemma prefix_take3: "prefix ''...'' (take n xs) \<Longrightarrow> prefix ''...'' xs"
  using take_is_prefix [of n xs] by (rule prefix_order.trans [rotated])

lemma prefix_append_long:
  "prefix p (xs @ ys) \<Longrightarrow> length p \<le> length xs \<Longrightarrow> prefix p xs"
  by (auto simp: prefix_append)

lemma truncateText_500:
  "length (truncateText C 500) \<le> 500 \<and>
   (prefix ''...'' (truncateText C 500) \<longrightarrow> prefix ''...'' C)"
proof (cases "int (length C) \<le> 500")
  case True
  then show ?thesis by (simp add: truncateText_def)
next
  case False
  then have sl: "slice C 0 497 = take 497 C"
    by (simp add: slice_inside)
  from False have len: "length (take 497 C) = 497"
    by simp
  have "prefix ''...'' (take 497 C @ ''...'') \<Longrightarrow> prefix ''...'' C"
  proof -
    assume "prefix ''...'' (take 497 C @ ''...'')"
    then have "prefix ''...'' (take 497 C)"
      by (rule prefix_append_long) (use False in simp)
    then show ?thesis by (rule prefix_take3)
  qed
  with False sl len show ?thesis
    by (simp add: truncateText_def)
qed

lemma excerptWindow_range:
  assumes "0 \<le> b" and "b \<le> int (length C)"
  shows "0 \<le> fst (excerptWindow C b 500) \<and>
         fst (excerptWindow C b 500) \<le> snd (excerptWindow C b 500) \<and>
         snd (excerptWindow C b 500) \<le> int (length C) \<and>
         snd (excerptWindow C b 500) - fst (excerptWindow C b 500) \<le> 500 \<and>
         (fst (excerptWindow C b 500) = 0 \<and> snd (excerptWindow C b 500) < int (length C) \<longrightarrow>
            snd (excerptWindow C b 500) = 500)"
  using assms by (auto simp: excerptWindow_def Let_def)

text \<open>
  C6, as the code has it. With the maximum length 500 of the search, an excerpt has at
  most 506 characters, whatever the content and the terms. The marker \<open>...\<close> is put in
  front only when the window starts behind offset 0; so an excerpt that begins with
  \<open>...\<close> has a window that does not start at offset 0, unless the content itself begins
  with \<open>...\<close>.
\<close>

theorem excerpt_bounds:
  "length (createExcerpt C T 500) \<le> 506 \<and>
   (prefix ''...'' (createExcerpt C T 500) \<longrightarrow>
      0 < excerptStart C T 500 \<or> prefix ''...'' C)"
proof (cases "findBestIndex C T = int (length C)")
  case True
  with truncateText_500 [of C] show ?thesis
    by (simp add: createExcerpt_def)
next
  case False
  define b where "b = findBestIndex C T"
  define s where "s = fst (excerptWindow C b 500)"
  define e where "e = snd (excerptWindow C b 500)"
  have w: "excerptWindow C b 500 = (s, e)"
    by (simp add: s_def e_def)
  from findBestIndex_range [of C T] have "0 \<le> b" "b \<le> int (length C)"
    by (simp_all add: b_def)
  from excerptWindow_range [OF this]
  have r: "0 \<le> s" "s \<le> e" "e \<le> int (length C)" "e - s \<le> 500"
    and f: "s = 0 \<and> e < int (length C) \<longrightarrow> e = 500"
    by (simp_all add: s_def e_def)
  have sl: "slice C s e = take (nat (e - s)) (drop (nat s) C)"
    using r by (simp add: slice_inside)
  have len: "length (slice C s e) = nat (e - s)"
    using r by (simp add: length_slice_inside)
  have ex: "createExcerpt C T 500 =
              (if s > 0 then ''...'' else []) @ slice C s e @
              (if e < int (length C) then ''...'' else [])"
    using False by (simp add: createExcerpt_def Let_def b_def [symmetric] w)
  have st: "excerptStart C T 500 = s"
    using False by (simp add: excerptStart_def Let_def b_def [symmetric] s_def)
  have bound: "length (createExcerpt C T 500) \<le> 506"
    using r by (auto simp: ex len)
  have lead: "prefix ''...'' C" if p: "prefix ''...'' (createExcerpt C T 500)" and z: "\<not> 0 < s"
  proof -
    from z r have s0: "s = 0" by simp
    show ?thesis
    proof (cases "e < int (length C)")
      case True
      with f s0 have e: "e = 500" by simp
      from p have "prefix ''...'' (take 500 C @ ''...'')"
        using True by (simp add: ex s0 e slice_inside)
      then have "prefix ''...'' (take 500 C)"
        by (rule prefix_append_long) (use True e in simp)
      then show ?thesis by (rule prefix_take3)
    next
      case False
      with r have "e = int (length C)" by simp
      with p show ?thesis
        by (simp add: ex s0 slice_inside)
    qed
  qed
  from bound lead st show ?thesis
    by auto
qed

theorem excerpt_bounds_witness:
  "createExcerpt (replicate 600 CHR ''x'' @ ''needle'') [''needle''] 500 =
     ''...'' @ replicate 494 CHR ''x'' @ ''needle'' \<and>
   prefix ''...'' (createExcerpt (replicate 600 CHR ''x'' @ ''needle'') [''needle''] 500) \<and>
   0 < excerptStart (replicate 600 CHR ''x'' @ ''needle'') [''needle''] 500"
proof -
  have a: "createExcerpt (replicate 600 CHR ''x'' @ ''needle'') [''needle''] 500 =
             ''...'' @ replicate 494 CHR ''x'' @ ''needle''"
    by code_simp
  have b: "\<not> prefix ''...'' (replicate 600 CHR ''x'' @ ''needle'')"
    by code_simp
  have c: "prefix ''...'' (createExcerpt (replicate 600 CHR ''x'' @ ''needle'') [''needle''] 500)"
    by (simp only: a) simp
  from excerpt_bounds [of "replicate 600 CHR ''x'' @ ''needle''" "[''needle'']"] b c
  have "0 < excerptStart (replicate 600 CHR ''x'' @ ''needle'') [''needle''] 500"
    by blast
  with a c show ?thesis
    by blast
qed

text \<open>
  The claim as stated fails on a content that begins with three dots: the term \<open>foo\<close>
  is found at offset 3, the window is the whole content from offset 0, and the excerpt
  begins with \<open>...\<close>.
\<close>

theorem excerpt_leading_ellipsis_counterexample:
  "createExcerpt ''...foo'' [''foo''] 500 = ''...foo'' \<and>
   prefix ''...'' (createExcerpt ''...foo'' [''foo''] 500) \<and>
   findBestIndex ''...foo'' [''foo''] = 3 \<and>
   excerptWindow ''...foo'' 3 500 = (0, 6) \<and>
   excerptStart ''...foo'' [''foo''] 500 = 0"
  by code_simp

section \<open>Chunks of tool calls\<close>

lemma partStep_lines:
  "partStep s p (pts, cps) = (pts @ [partType p], cps @ partLines s p)"
proof (cases p)
  case (ToolPart tool state)
  then show ?thesis
    by (cases state) (simp_all add: Let_def toolLines_def slice_take)
qed simp_all

declare partStep.simps [simp del]

lemma fold_partStep:
  "fold (partStep s) ps (pts, cps) =
     (pts @ map partType ps, cps @ concat (map (partLines s) ps))"
  by (induction ps arbitrary: pts cps) (simp_all add: partStep_lines)

lemma contentParts_concat: "contentParts s ps = concat (map (partLines s) ps)"
  by (simp add: contentParts_def partsLoop_def fold_partStep)

lemma contentParts_tool:
  "contentParts s (ps1 @ [ToolPart tool state] @ ps2) =
     contentParts s ps1 @ toolLines s tool state @ contentParts s ps2"
  by (simp add: contentParts_concat)

lemma joinWith_append:
  "xs \<noteq> [] \<Longrightarrow> ys \<noteq> [] \<Longrightarrow> joinWith sep (xs @ ys) = joinWith sep xs @ sep @ joinWith sep ys"
proof (induction sep xs rule: joinWith.induct)
  case (2 sep x)
  then show ?case by (cases ys) simp_all
qed simp_all

lemma hasLine_join:
  assumes "l \<in> set ls"
  shows "hasLine l (joinWith newline ls)"
proof -
  from assms obtain xs ys where ls: "ls = xs @ l # ys"
    by (auto simp: in_set_conv_decomp)
  show ?thesis
  proof (cases "xs = []")
    case True
    show ?thesis
    proof (cases ys)
      case Nil
      with True ls show ?thesis by (simp add: hasLine_def)
    next
      case (Cons y ys')
      with True ls show ?thesis by (simp add: hasLine_def)
    qed
  next
    case False
    show ?thesis
    proof (cases ys)
      case Nil
      with False ls have "joinWith newline ls = joinWith newline xs @ newline @ l"
        by (simp add: joinWith_append)
      then have "suffix (newline @ l) (joinWith newline ls)"
        by (simp add: suffix_def)
      then show ?thesis by (simp add: hasLine_def)
    next
      case (Cons y ys')
      with False ls have "joinWith newline ls =
          joinWith newline xs @ (newline @ l @ newline) @ joinWith newline (y # ys')"
        by (simp add: joinWith_append)
      then have "sublist (newline @ l @ newline) (joinWith newline ls)"
        unfolding sublist_def by blast
      then show ?thesis by (simp add: hasLine_def)
    qed
  qed
qed

lemma chunkLoop_Cons:
  "chunkLoop s sid (m # ms) k acc =
     (if contentParts s (parts m) \<noteq> []
      then chunkLoop s sid ms (Suc k) (acc @ [chunkOf s sid k m])
      else chunkLoop s sid ms k acc)"
proof -
  obtain pts cps where pc: "partsLoop s (parts m) = (pts, cps)"
    by (cases "partsLoop s (parts m)")
  show ?thesis
    by (simp add: pc contentParts_def chunkOf_def)
qed

declare chunkLoop.simps(2) [simp del]

lemma chunkLoop_acc:
  "chunkLoop s sid ms k acc = acc @ chunkLoop s sid ms k []"
proof (induction ms arbitrary: k acc)
  case Nil
  then show ?case by simp
next
  case (Cons m ms)
  show ?case
  proof (cases "contentParts s (parts m) \<noteq> []")
    case True
    have "chunkLoop s sid (m # ms) k acc = (acc @ [chunkOf s sid k m]) @ chunkLoop s sid ms (Suc k) []"
      using True Cons.IH [of "Suc k" "acc @ [chunkOf s sid k m]"] by (simp add: chunkLoop_Cons)
    moreover have "chunkLoop s sid (m # ms) k [] = [chunkOf s sid k m] @ chunkLoop s sid ms (Suc k) []"
      using True Cons.IH [of "Suc k" "[chunkOf s sid k m]"] by (simp add: chunkLoop_Cons)
    ultimately show ?thesis by simp
  next
    case False
    then show ?thesis
      using Cons.IH [of k acc] by (simp add: chunkLoop_Cons)
  qed
qed

lemma length_chunkLoop:
  "length (chunkLoop s sid ms k acc) =
     length acc + length (filter (\<lambda>m. contentParts s (parts m) \<noteq> []) ms)"
  by (induction ms arbitrary: k acc) (simp_all add: chunkLoop_Cons)

lemma chunkLoop_append:
  "chunkLoop s sid (ms1 @ ms2) k acc =
     chunkLoop s sid ms2 (k + length (filter (\<lambda>m. contentParts s (parts m) \<noteq> []) ms1))
       (chunkLoop s sid ms1 k acc)"
proof (induction ms1 arbitrary: k acc)
  case Nil
  then show ?case by simp
next
  case (Cons m ms1)
  show ?case
  proof (cases "contentParts s (parts m) \<noteq> []")
    case True
    then show ?thesis
      using Cons.IH [of "Suc k" "acc @ [chunkOf s sid k m]"]
      by (simp add: chunkLoop_Cons)
  next
    case False
    then show ?thesis
      using Cons.IH [of k acc]
      by (simp add: chunkLoop_Cons)
  qed
qed

lemma createChunks_split:
  "createChunks s (ms1 @ m # ms2) sid =
     createChunks s ms1 sid @ chunkLoop s sid (m # ms2) (length (createChunks s ms1 sid)) []"
proof -
  have n: "length (createChunks s ms1 sid) = length (filter (\<lambda>m. contentParts s (parts m) \<noteq> []) ms1)"
    by (simp add: createChunks_def length_chunkLoop)
  have "createChunks s (ms1 @ m # ms2) sid =
          chunkLoop s sid (m # ms2) (length (createChunks s ms1 sid)) (createChunks s ms1 sid)"
    by (simp add: createChunks_def chunkLoop_append n [unfolded createChunks_def])
  then show ?thesis
    using chunkLoop_acc [of s sid "m # ms2" "length (createChunks s ms1 sid)" "createChunks s ms1 sid"]
    by simp
qed

lemma createChunks_content:
  assumes "contentParts s (parts m) \<noteq> []"
  shows "length (createChunks s ms1 sid) < length (createChunks s (ms1 @ m # ms2) sid) \<and>
         createChunks s (ms1 @ m # ms2) sid ! length (createChunks s ms1 sid) =
           chunkOf s sid (length (createChunks s ms1 sid)) m"
proof -
  let ?k = "length (createChunks s ms1 sid)"
  have "chunkLoop s sid (m # ms2) ?k [] = [chunkOf s sid ?k m] @ chunkLoop s sid ms2 (Suc ?k) []"
    using assms chunkLoop_acc [of s sid ms2 "Suc ?k" "[chunkOf s sid ?k m]"]
    by (simp add: chunkLoop_Cons)
  then have "createChunks s (ms1 @ m # ms2) sid =
      createChunks s ms1 sid @ chunkOf s sid ?k m # chunkLoop s sid ms2 (Suc ?k) []"
    by (simp add: createChunks_split)
  then show ?thesis
    by (simp add: nth_append)
qed

lemma createChunks_no_content:
  assumes "contentParts s (parts m) = []"
  shows "createChunks s (ms1 @ m # ms2) sid = createChunks s (ms1 @ ms2) sid"
proof -
  have "chunkLoop s sid (ms1 @ m # ms2) 0 [] = chunkLoop s sid (ms1 @ ms2) 0 []"
    using assms by (simp add: chunkLoop_append chunkLoop_Cons)
  then show ?thesis
    by (simp add: createChunks_def)
qed

lemma partLines_empty_iff: "partLines s p = [] \<longleftrightarrow> \<not> isContentPart p"
  by (cases p) (simp_all add: toolLines_def)

lemma contentParts_empty_iff: "contentParts s ps = [] \<longleftrightarrow> \<not> list_ex isContentPart ps"
  by (simp add: contentParts_concat partLines_empty_iff list_ex_iff)

text \<open>
  C8, as the code has it. Let the message \<open>m\<close> contain a tool-invocation part, with the
  parts \<open>ps1\<close> before it and \<open>ps2\<close> behind it, and stand in a message list behind the
  messages \<open>ms1\<close>. Then \<open>createChunks\<close> builds a chunk for \<open>m\<close> (at the position that
  follows the chunks of \<open>ms1\<close>) whose content is the lines of \<open>ps1\<close>, the lines of the
  tool call and the lines of \<open>ps2\<close>, joined by line breaks. It has the line of the tool
  name and the line of the serialized input; it has the line of the output, cut to 1000
  characters, when the call is completed; when the call is not completed the part adds
  the first two lines only, so a message that consists of this part alone has exactly
  these two lines. A message gives no chunk exactly when none of its parts is a text,
  reasoning or tool part: then the result is that of the list without it; a message
  with such a part gives a chunk with the joined content, also when that content is
  empty.
\<close>

theorem tool_part_chunk:
  "(parts m = ps1 @ [ToolPart tool state] @ ps2 \<longrightarrow>
      (let c = createChunks s (ms1 @ m # ms2) sid ! length (createChunks s ms1 sid)
       in length (createChunks s ms1 sid) < length (createChunks s (ms1 @ m # ms2) sid) \<and>
          messageID c = msgID m \<and>
          content c =
            joinWith newline (contentParts s ps1 @ toolLines s tool state @ contentParts s ps2) \<and>
          hasLine (''Tool: '' @ tool) (content c) \<and>
          hasLine (''Input: '' @ s (stateInput state)) (content c) \<and>
          (case stateOutput state of
             Some out \<Rightarrow> hasLine (''Output: '' @ take 1000 out) (content c)
           | None \<Rightarrow>
               (if ps1 = [] \<and> ps2 = []
                then content c = ''Tool: '' @ tool @ newline @ ''Input: '' @ s (stateInput state)
                else True)))) \<and>
   (\<not> list_ex isContentPart (parts m) \<longrightarrow>
      createChunks s (ms1 @ m # ms2) sid = createChunks s (ms1 @ ms2) sid) \<and>
   (list_ex isContentPart (parts m) \<longrightarrow>
      (let c = createChunks s (ms1 @ m # ms2) sid ! length (createChunks s ms1 sid)
       in length (createChunks s ms1 sid) < length (createChunks s (ms1 @ m # ms2) sid) \<and>
          messageID c = msgID m \<and>
          content c = joinWith newline (contentParts s (parts m))))"
proof (intro conjI impI)
  assume ps: "parts m = ps1 @ [ToolPart tool state] @ ps2"
  let ?k = "length (createChunks s ms1 sid)"
  let ?c = "createChunks s (ms1 @ m # ms2) sid ! ?k"
  let ?ls = "contentParts s ps1 @ toolLines s tool state @ contentParts s ps2"
  have cp: "contentParts s (parts m) = ?ls"
    by (simp only: ps contentParts_tool)
  then have ne: "contentParts s (parts m) \<noteq> []"
    by (simp add: toolLines_def)
  from createChunks_content [OF ne, of ms1 sid ms2]
  have len: "?k < length (createChunks s (ms1 @ m # ms2) sid)" and c: "?c = chunkOf s sid ?k m"
    by simp_all
  have mid: "messageID ?c = msgID m"
    by (simp add: c chunkOf_def)
  have con: "content ?c = joinWith newline ?ls"
    by (simp add: c chunkOf_def cp)
  have l1: "hasLine (''Tool: '' @ tool) (content ?c)"
    unfolding con by (rule hasLine_join) (simp add: toolLines_def)
  have l2: "hasLine (''Input: '' @ s (stateInput state)) (content ?c)"
    unfolding con by (rule hasLine_join) (simp add: toolLines_def)
  have l3: "case stateOutput state of
              Some out \<Rightarrow> hasLine (''Output: '' @ take 1000 out) (content ?c)
            | None \<Rightarrow>
                (if ps1 = [] \<and> ps2 = []
                 then content ?c = ''Tool: '' @ tool @ newline @ ''Input: '' @ s (stateInput state)
                 else True)"
  proof (cases "stateOutput state")
    case None
    then show ?thesis
      by (simp add: con toolLines_def contentParts_concat)
  next
    case (Some out)
    have "hasLine (''Output: '' @ take 1000 out) (content ?c)"
      unfolding con by (rule hasLine_join) (simp add: toolLines_def Some)
    with Some show ?thesis by simp
  qed
  from len mid con l1 l2 l3
  show "let c = ?c
        in ?k < length (createChunks s (ms1 @ m # ms2) sid) \<and>
           messageID c = msgID m \<and>
           content c = joinWith newline ?ls \<and>
           hasLine (''Tool: '' @ tool) (content c) \<and>
           hasLine (''Input: '' @ s (stateInput state)) (content c) \<and>
           (case stateOutput state of
              Some out \<Rightarrow> hasLine (''Output: '' @ take 1000 out) (content c)
            | None \<Rightarrow>
                (if ps1 = [] \<and> ps2 = []
                 then content c = ''Tool: '' @ tool @ newline @ ''Input: '' @ s (stateInput state)
                 else True))"
    unfolding Let_def by blast
next
  assume "\<not> list_ex isContentPart (parts m)"
  then have "contentParts s (parts m) = []"
    by (simp add: contentParts_empty_iff)
  then show "createChunks s (ms1 @ m # ms2) sid = createChunks s (ms1 @ ms2) sid"
    by (rule createChunks_no_content)
next
  assume "list_ex isContentPart (parts m)"
  then have ne: "contentParts s (parts m) \<noteq> []"
    by (simp add: contentParts_empty_iff)
  let ?k = "length (createChunks s ms1 sid)"
  let ?c = "createChunks s (ms1 @ m # ms2) sid ! ?k"
  from createChunks_content [OF ne, of ms1 sid ms2]
  have len: "?k < length (createChunks s (ms1 @ m # ms2) sid)" and c: "?c = chunkOf s sid ?k m"
    by simp_all
  have "messageID ?c = msgID m" and "content ?c = joinWith newline (contentParts s (parts m))"
    by (simp_all add: c chunkOf_def)
  with len
  show "let c = ?c
        in ?k < length (createChunks s (ms1 @ m # ms2) sid) \<and>
           messageID c = msgID m \<and>
           content c = joinWith newline (contentParts s (parts m))"
    unfolding Let_def by blast
qed

theorem tool_part_chunk_witness:
  "parts exToolMsg = [] @ [ToolPart ''bash'' (ToolRunning ''{}'')] @ [] \<and>
   \<not> list_ex isContentPart (parts exEmptyMsg) \<and>
   list_ex isContentPart (parts exBlankMsg) \<and>
   map content (createChunks (\<lambda>j. j) ([exEmptyMsg] @ exToolMsg # [exDoneMsg]) ''ses_1'') =
     [''Tool: bash'' @ newline @ ''Input: {}'',
      ''run it'' @ newline @ ''Tool: bash'' @ newline @ ''Input: {}'' @ newline @ ''Output: ok''] \<and>
   content (createChunks (\<lambda>j. j) ([exEmptyMsg] @ exToolMsg # [exDoneMsg]) ''ses_1'' !
              length (createChunks (\<lambda>j. j) [exEmptyMsg] ''ses_1'')) =
     ''Tool: bash'' @ newline @ ''Input: {}'' \<and>
   createChunks (\<lambda>j. j) ([] @ exEmptyMsg # [exToolMsg]) ''ses_1'' =
     createChunks (\<lambda>j. j) ([] @ [exToolMsg]) ''ses_1'' \<and>
   length (createChunks (\<lambda>j. j) [exToolMsg] ''ses_1'') <
     length (createChunks (\<lambda>j. j) ([exToolMsg] @ exBlankMsg # []) ''ses_1'') \<and>
   messageID (createChunks (\<lambda>j. j) ([exToolMsg] @ exBlankMsg # []) ''ses_1'' !
                length (createChunks (\<lambda>j. j) [exToolMsg] ''ses_1'')) = msgID exBlankMsg"
proof -
  have a: "parts exToolMsg = [] @ [ToolPart ''bash'' (ToolRunning ''{}'')] @ []"
    by code_simp
  have b: "\<not> list_ex isContentPart (parts exEmptyMsg)"
    by code_simp
  have b2: "list_ex isContentPart (parts exBlankMsg)"
    by code_simp
  have c: "map content (createChunks (\<lambda>j. j) ([exEmptyMsg] @ exToolMsg # [exDoneMsg]) ''ses_1'') =
     [''Tool: bash'' @ newline @ ''Input: {}'',
      ''run it'' @ newline @ ''Tool: bash'' @ newline @ ''Input: {}'' @ newline @ ''Output: ok'']"
    by code_simp
  note inst = tool_part_chunk [of exToolMsg "[]" "''bash''" "ToolRunning ''{}''" "[]" "\<lambda>j. j"
      "[exEmptyMsg]" "[exDoneMsg]" "''ses_1''"]
  from a inst
  have "case stateOutput (ToolRunning ''{}'') of
          Some out \<Rightarrow>
            hasLine (''Output: '' @ take 1000 out)
              (content (createChunks (\<lambda>j. j) ([exEmptyMsg] @ exToolMsg # [exDoneMsg]) ''ses_1'' !
                 length (createChunks (\<lambda>j. j) [exEmptyMsg] ''ses_1'')))
        | None \<Rightarrow>
            (if ([]::string part list) = [] \<and> ([]::string part list) = []
             then content (createChunks (\<lambda>j. j) ([exEmptyMsg] @ exToolMsg # [exDoneMsg]) ''ses_1'' !
                    length (createChunks (\<lambda>j. j) [exEmptyMsg] ''ses_1'')) =
                  ''Tool: '' @ ''bash'' @ newline @ ''Input: '' @ stateInput (ToolRunning ''{}'')
             else True)"
    unfolding Let_def by blast
  then have "content (createChunks (\<lambda>j. j) ([exEmptyMsg] @ exToolMsg # [exDoneMsg]) ''ses_1'' !
               length (createChunks (\<lambda>j. j) [exEmptyMsg] ''ses_1'')) =
             ''Tool: '' @ ''bash'' @ newline @ ''Input: '' @ stateInput (ToolRunning ''{}'')"
    by simp
  then have d: "content (createChunks (\<lambda>j. j) ([exEmptyMsg] @ exToolMsg # [exDoneMsg]) ''ses_1'' !
              length (createChunks (\<lambda>j. j) [exEmptyMsg] ''ses_1'')) =
     ''Tool: bash'' @ newline @ ''Input: {}''"
    by simp
  from b tool_part_chunk [of exEmptyMsg _ _ _ _ "\<lambda>j. j" "[]" "[exToolMsg]" "''ses_1''"]
  have e: "createChunks (\<lambda>j. j) ([] @ exEmptyMsg # [exToolMsg]) ''ses_1'' =
     createChunks (\<lambda>j. j) ([] @ [exToolMsg]) ''ses_1''"
    by blast
  from b2 tool_part_chunk [of exBlankMsg _ _ _ _ "\<lambda>j. j" "[exToolMsg]" "[]" "''ses_1''"]
  have f: "length (createChunks (\<lambda>j. j) [exToolMsg] ''ses_1'') <
             length (createChunks (\<lambda>j. j) ([exToolMsg] @ exBlankMsg # []) ''ses_1'') \<and>
           messageID (createChunks (\<lambda>j. j) ([exToolMsg] @ exBlankMsg # []) ''ses_1'' !
                length (createChunks (\<lambda>j. j) [exToolMsg] ''ses_1'')) = msgID exBlankMsg"
    unfolding Let_def by blast
  from a b b2 c d e f show ?thesis
    by blast
qed

text \<open>
  The claim as stated fails on a message whose only part is a text part with the empty
  text: its parts produce no content, the joined content is the empty string, and the
  message still gets a chunk, because the guard counts the entries of \<open>contentParts\<close>.
\<close>

theorem empty_text_part_counterexample:
  "parts exBlankMsg = [TextPart []] \<and>
   joinWith newline (contentParts (\<lambda>j. j) (parts exBlankMsg)) = [] \<and>
   map chunkID (createChunks (\<lambda>j. j) [exBlankMsg] ''ses_1'') = [''chunk_0''] \<and>
   map messageID (createChunks (\<lambda>j. j) [exBlankMsg] ''ses_1'') = [''msg_3''] \<and>
   map content (createChunks (\<lambda>j. j) [exBlankMsg] ''ses_1'') = [[]]"
  by code_simp

end
